theory Spec2Isabelle
  imports Main
begin

section \<open>Data model (src/components/ChessGame.tsx, lines 7-17 and 72-77)\<close>

datatype PieceType = king | queen | rook | bishop | knight | pawn

datatype PieceColor = white | black

record Piece =
  type :: PieceType
  color :: PieceColor

record Position =
  row :: int
  col :: int

record CastlingRights =
  whiteKingside :: bool
  whiteQueenside :: bool
  blackKingside :: bool
  blackQueenside :: bool

text \<open>
  \<^verbatim>\<open>type Board = (Piece | null)[][]\<close>: a list of rows, each a list of optional pieces.
  Row 0 is Black's back rank, row 7 White's.  The program only ever builds 8x8 boards
  (\<^verbatim>\<open>initializeBoard\<close> and element-wise copies of it); \<open>wf_board\<close> states that shape.
\<close>

type_synonym Board = "Piece option list list"

definition wf_board :: "Board \<Rightarrow> bool" where
  "wf_board b = (length b = 8 \<and> list_all (\<lambda>r. length r = 8) b)"

definition isValidSquare :: "int \<Rightarrow> int \<Rightarrow> bool" where
  "isValidSquare r c = (r \<ge> 0 \<and> r < 8 \<and> c \<ge> 0 \<and> c < 8)"

definition validPos :: "Position \<Rightarrow> bool" where
  "validPos p = isValidSquare (row p) (col p)"

text \<open>
  \<open>pieceAt b r c\<close> is the read \<^verbatim>\<open>board[r][c]\<close>.  Every read of the source is either
  guarded by \<^verbatim>\<open>isValidSquare\<close> or made at a square of the 8x8 grid; outside the grid the
  model answers \<open>None\<close> (JavaScript gives \<^verbatim>\<open>undefined\<close> for a column out of range, which every
  test of the source treats like \<^verbatim>\<open>null\<close>, and throws for a row out of range).
  \<open>setAt b r c v\<close> is the write \<^verbatim>\<open>board[r][c] = v\<close> on a copy; the source writes only inside
  the grid.
\<close>

definition pieceAt :: "Board \<Rightarrow> int \<Rightarrow> int \<Rightarrow> Piece option" where
  "pieceAt b r c = (if isValidSquare r c then b ! nat r ! nat c else None)"

definition setAt :: "Board \<Rightarrow> int \<Rightarrow> int \<Rightarrow> Piece option \<Rightarrow> Board" where
  "setAt b r c v = (if isValidSquare r c then b[nat r := (b ! nat r)[nat c := v]] else b)"

definition opponent :: "PieceColor \<Rightarrow> PieceColor" where
  "opponent cl = (if cl = white then black else white)"

text \<open>The squares in the order of the nested loops \<^verbatim>\<open>for row 0..7, for col 0..7\<close>.\<close>

definition allSquares :: "Position list" where
  "allSquares = concat (map (\<lambda>r. map (\<lambda>c. \<lparr>row = r, col = c\<rparr>) [0..7]) [0..7])"

definition isPiece :: "Board \<Rightarrow> PieceType \<Rightarrow> PieceColor \<Rightarrow> int \<Rightarrow> int \<Rightarrow> bool" where
  "isPiece b t cl r c =
     (case pieceAt b r c of Some p \<Rightarrow> type p = t \<and> color p = cl | None \<Rightarrow> False)"

section \<open>Attack detector (lines 110-213)\<close>

definition findKing :: "Board \<Rightarrow> PieceColor \<Rightarrow> Position option" where
  "findKing b cl = List.find (\<lambda>p. isPiece b king cl (row p) (col p)) allSquares"

definition knightOffsets :: "(int \<times> int) list" where
  "knightOffsets = [(-2, -1), (-2, 1), (-1, -2), (-1, 2), (1, -2), (1, 2), (2, -1), (2, 1)]"

definition diagonalDirs :: "(int \<times> int) list" where
  "diagonalDirs = [(1, 1), (1, -1), (-1, 1), (-1, -1)]"

definition straightDirs :: "(int \<times> int) list" where
  "straightDirs = [(0, 1), (0, -1), (1, 0), (-1, 0)]"

text \<open>
  One \<^verbatim>\<open>while (isValidSquare(r, c))\<close> ray walk of \<^verbatim>\<open>isSquareUnderAttack\<close>, started at
  \<open>(r, c)\<close> and stepping by \<open>(dr, dc)\<close>: the first occupied square decides.  The source only
  walks the eight unit directions; the test \<open>dr \<noteq> 0 \<or> dc \<noteq> 0\<close> makes the function total
  for the direction \<open>(0, 0)\<close>, which the source never uses.
\<close>

function attackRay ::
  "Board \<Rightarrow> PieceColor \<Rightarrow> PieceType \<Rightarrow> int \<Rightarrow> int \<Rightarrow> int \<Rightarrow> int \<Rightarrow> bool" where
  "attackRay b byColor slider r c dr dc =
     (if isValidSquare r c \<and> (dr \<noteq> 0 \<or> dc \<noteq> 0) then
        (case pieceAt b r c of
           Some p \<Rightarrow> color p = byColor \<and> (type p = slider \<or> type p = queen)
         | None \<Rightarrow> attackRay b byColor slider (r + dr) (c + dc) dr dc)
      else False)"
  by pat_completeness auto
termination
  by (relation "measure (\<lambda>(b, byColor, slider, r, c, dr, dc).
        if dr > 0 then nat (8 - r) else if dr < 0 then nat (r + 1)
        else if dc > 0 then nat (8 - c) else nat (c + 1))")
     (auto simp: isValidSquare_def)

definition isSquareUnderAttack :: "Position \<Rightarrow> Board \<Rightarrow> PieceColor \<Rightarrow> bool" where
  "isSquareUnderAttack pos b byColor =
     (let pawnDirection = (if byColor = white then -1 else 1 :: int) in
      list_ex (\<lambda>offset. isPiece b pawn byColor (row pos - pawnDirection) (col pos + offset))
        [-1, 1]
      \<or> list_ex (\<lambda>(dr, dc). isPiece b knight byColor (row pos + dr) (col pos + dc))
        knightOffsets
      \<or> list_ex (\<lambda>dr. list_ex (\<lambda>dc. \<not> (dr = 0 \<and> dc = 0)
            \<and> isPiece b king byColor (row pos + dr) (col pos + dc)) [-1, 0, 1]) [-1, 0, 1]
      \<or> list_ex (\<lambda>(dr, dc). attackRay b byColor bishop (row pos + dr) (col pos + dc) dr dc)
        diagonalDirs
      \<or> list_ex (\<lambda>(dr, dc). attackRay b byColor rook (row pos + dr) (col pos + dc) dr dc)
        straightDirs)"

definition isKingInCheck :: "Board \<Rightarrow> PieceColor \<Rightarrow> bool" where
  "isKingInCheck b cl =
     (case findKing b cl of
        None \<Rightarrow> False
      | Some kingPos \<Rightarrow> isSquareUnderAttack kingPos b (opponent cl))"

section \<open>Pseudo-legal move generator (lines 215-359)\<close>

text \<open>
  \<^verbatim>\<open>getPseudoLegalMoves\<close> closes over the component state \<^verbatim>\<open>enPassantTarget\<close> and
  \<^verbatim>\<open>castlingRights\<close>; the model takes both as the parameters \<open>ep\<close> and \<open>cr\<close>.
\<close>

definition isEmptyOrEnemy :: "Board \<Rightarrow> PieceColor \<Rightarrow> int \<Rightarrow> int \<Rightarrow> bool" where
  "isEmptyOrEnemy b cl r c =
     (if \<not> isValidSquare r c then False
      else (case pieceAt b r c of None \<Rightarrow> True | Some target \<Rightarrow> color target \<noteq> cl))"

definition isEnPassantSquare :: "Position option \<Rightarrow> int \<Rightarrow> int \<Rightarrow> bool" where
  "isEnPassantSquare ep r c = (case ep of None \<Rightarrow> False | Some e \<Rightarrow> r = row e \<and> c = col e)"

text \<open>
  The pawn case, in its two blocks: the forward moves, and for each of the offsets -1 and
  1 the capture and the en passant move.
\<close>

definition pawnForward :: "Board \<Rightarrow> PieceColor \<Rightarrow> int \<Rightarrow> int \<Rightarrow> Position list" where
  "pawnForward b cl r c =
     (let direction = (if cl = white then -1 else 1 :: int);
          startRow = (if cl = white then 6 else 1 :: int)
      in if isValidSquare (r + direction) c \<and> pieceAt b (r + direction) c = None then
           \<lparr>row = r + direction, col = c\<rparr> #
           (if r = startRow \<and> pieceAt b (r + 2 * direction) c = None
            then [\<lparr>row = r + 2 * direction, col = c\<rparr>] else [])
         else [])"

definition pawnCapture ::
  "Position option \<Rightarrow> Board \<Rightarrow> PieceColor \<Rightarrow> int \<Rightarrow> int \<Rightarrow> int \<Rightarrow> Position list" where
  "pawnCapture ep b cl r c offset =
     (let direction = (if cl = white then -1 else 1 :: int);
          newCol = c + offset
      in if isValidSquare (r + direction) newCol then
           (case pieceAt b (r + direction) newCol of
              Some target \<Rightarrow>
                if color target \<noteq> cl then [\<lparr>row = r + direction, col = newCol\<rparr>] else []
            | None \<Rightarrow> [])
           @ (if isEnPassantSquare ep (r + direction) newCol
              then [\<lparr>row = r + direction, col = newCol\<rparr>] else [])
         else [])"

definition pawnMoves :: "Position option \<Rightarrow> Board \<Rightarrow> PieceColor \<Rightarrow> int \<Rightarrow> int \<Rightarrow> Position list" where
  "pawnMoves ep b cl r c =
     pawnForward b cl r c @ concat (map (pawnCapture ep b cl r c) [-1, 1])"

definition stepMoves :: "Board \<Rightarrow> PieceColor \<Rightarrow> int \<Rightarrow> int \<Rightarrow> (int \<times> int) list \<Rightarrow> Position list" where
  "stepMoves b cl r c offsets =
     concat (map (\<lambda>(dr, dc).
       if isEmptyOrEnemy b cl (r + dr) (c + dc) then [\<lparr>row = r + dr, col = c + dc\<rparr>] else [])
       offsets)"

text \<open>The ray walk of the bishop, rook and queen cases, started at \<open>(r, c)\<close>.\<close>

function slideRay :: "Board \<Rightarrow> PieceColor \<Rightarrow> int \<Rightarrow> int \<Rightarrow> int \<Rightarrow> int \<Rightarrow> Position list" where
  "slideRay b cl r c dr dc =
     (if isValidSquare r c \<and> (dr \<noteq> 0 \<or> dc \<noteq> 0) then
        (case pieceAt b r c of
           Some p \<Rightarrow> if color p \<noteq> cl then [\<lparr>row = r, col = c\<rparr>] else []
         | None \<Rightarrow> \<lparr>row = r, col = c\<rparr> # slideRay b cl (r + dr) (c + dc) dr dc)
      else [])"
  by pat_completeness auto
termination
  by (relation "measure (\<lambda>(b, cl, r, c, dr, dc).
        if dr > 0 then nat (8 - r) else if dr < 0 then nat (r + 1)
        else if dc > 0 then nat (8 - c) else nat (c + 1))")
     (auto simp: isValidSquare_def)

definition slideMoves :: "Board \<Rightarrow> PieceColor \<Rightarrow> int \<Rightarrow> int \<Rightarrow> (int \<times> int) list \<Rightarrow> Position list" where
  "slideMoves b cl r c dirs =
     concat (map (\<lambda>(dr, dc). slideRay b cl (r + dr) (c + dc) dr dc) dirs)"

definition kingDirs :: "(int \<times> int) list" where
  "kingDirs = [(0, 1), (0, -1), (1, 0), (-1, 0), (1, 1), (1, -1), (-1, 1), (-1, -1)]"

definition hasType :: "Board \<Rightarrow> PieceType \<Rightarrow> int \<Rightarrow> int \<Rightarrow> bool" where
  "hasType b t r c = (case pieceAt b r c of Some p \<Rightarrow> type p = t | None \<Rightarrow> False)"

definition castlingMoves :: "CastlingRights \<Rightarrow> Board \<Rightarrow> PieceColor \<Rightarrow> int \<Rightarrow> int \<Rightarrow> Position list" where
  "castlingMoves cr b cl r c =
     (if \<not> isKingInCheck b cl then
        (let baseRow = (if cl = white then 7 else 0 :: int) in
         if r = baseRow \<and> c = 4 then
           (if (if cl = white then whiteKingside cr else blackKingside cr) then
              (if pieceAt b baseRow 5 = None \<and> pieceAt b baseRow 6 = None
                  \<and> hasType b rook baseRow 7 then
                 (if \<not> isSquareUnderAttack \<lparr>row = baseRow, col = 5\<rparr> b (opponent cl)
                     \<and> \<not> isSquareUnderAttack \<lparr>row = baseRow, col = 6\<rparr> b (opponent cl)
                  then [\<lparr>row = baseRow, col = 6\<rparr>] else [])
               else [])
            else [])
           @ (if (if cl = white then whiteQueenside cr else blackQueenside cr) then
              (if pieceAt b baseRow 3 = None \<and> pieceAt b baseRow 2 = None
                  \<and> pieceAt b baseRow 1 = None \<and> hasType b rook baseRow 0 then
                 (if \<not> isSquareUnderAttack \<lparr>row = baseRow, col = 3\<rparr> b (opponent cl)
                     \<and> \<not> isSquareUnderAttack \<lparr>row = baseRow, col = 2\<rparr> b (opponent cl)
                  then [\<lparr>row = baseRow, col = 2\<rparr>] else [])
               else [])
            else [])
         else [])
      else [])"

definition getPseudoLegalMoves ::
  "Position option \<Rightarrow> CastlingRights \<Rightarrow> Position \<Rightarrow> Board \<Rightarrow> Position list" where
  "getPseudoLegalMoves ep cr pos b =
     (case pieceAt b (row pos) (col pos) of
        None \<Rightarrow> []
      | Some piece \<Rightarrow>
          (let r = row pos; c = col pos; cl = color piece in
           case type piece of
             pawn \<Rightarrow> pawnMoves ep b cl r c
           | knight \<Rightarrow> stepMoves b cl r c knightOffsets
           | bishop \<Rightarrow> slideMoves b cl r c diagonalDirs
           | rook \<Rightarrow> slideMoves b cl r c straightDirs
           | queen \<Rightarrow> slideMoves b cl r c kingDirs
           | king \<Rightarrow> stepMoves b cl r c kingDirs @ castlingMoves cr b cl r c))"

section \<open>Legality filter (lines 361-406)\<close>

text \<open>
  The body of the loop of \<^verbatim>\<open>getValidMoves\<close> after the king-capture test: the move played
  on a copy of the board, with the en passant removal and the castling rook relocation.
\<close>

definition simulateMove :: "Position option \<Rightarrow> Piece \<Rightarrow> Position \<Rightarrow> Position \<Rightarrow> Board \<Rightarrow> Board" where
  "simulateMove ep piece pos move b =
     (let nb1 = (if type piece = pawn \<and> isEnPassantSquare ep (row move) (col move) then
                   (let capturedPawnRow =
                          (if color piece = white then row move + 1 else row move - 1)
                    in setAt b capturedPawnRow (col move) None)
                 else b);
          nb2 = (if type piece = king \<and> \<bar>col move - col pos\<bar> = 2 then
                   (let isKingside = col move > col pos;
                        rookFromCol = (if isKingside then 7 else 0 :: int);
                        rookToCol = (if isKingside then 5 else 3 :: int);
                        nb = setAt nb1 (row pos) rookToCol (pieceAt nb1 (row pos) rookFromCol)
                    in setAt nb (row pos) rookFromCol None)
                 else nb1);
          nb3 = setAt nb2 (row move) (col move) (pieceAt nb2 (row pos) (col pos))
      in setAt nb3 (row pos) (col pos) None)"

definition getValidMoves ::
  "Position option \<Rightarrow> CastlingRights \<Rightarrow> Position \<Rightarrow> Board \<Rightarrow> Position list" where
  "getValidMoves ep cr pos b =
     (case pieceAt b (row pos) (col pos) of
        None \<Rightarrow> []
      | Some piece \<Rightarrow>
          filter (\<lambda>move.
              \<not> hasType b king (row move) (col move)
              \<and> \<not> isKingInCheck (simulateMove ep piece pos move b) (color piece))
            (getPseudoLegalMoves ep cr pos b))"

section \<open>Game-state classifier (lines 408-504)\<close>

text \<open>
  The loop shared by \<^verbatim>\<open>checkForCheckmate\<close> and \<^verbatim>\<open>checkForStalemate\<close>: it leaves with
  \<^verbatim>\<open>return false\<close> at the first piece of the colour that has a valid move.
\<close>

definition hasColor :: "Board \<Rightarrow> PieceColor \<Rightarrow> Position \<Rightarrow> bool" where
  "hasColor b cl p = (case pieceAt b (row p) (col p) of Some q \<Rightarrow> color q = cl | None \<Rightarrow> False)"

definition anyValidMove :: "Position option \<Rightarrow> CastlingRights \<Rightarrow> Board \<Rightarrow> PieceColor \<Rightarrow> bool" where
  "anyValidMove ep cr b cl =
     list_ex (\<lambda>p. hasColor b cl p \<and> length (getValidMoves ep cr p b) > 0) allSquares"

definition checkForCheckmate :: "Position option \<Rightarrow> CastlingRights \<Rightarrow> Board \<Rightarrow> PieceColor \<Rightarrow> bool" where
  "checkForCheckmate ep cr b cl =
     (if \<not> isKingInCheck b cl then False else \<not> anyValidMove ep cr b cl)"

definition checkForStalemate :: "Position option \<Rightarrow> CastlingRights \<Rightarrow> Board \<Rightarrow> PieceColor \<Rightarrow> bool" where
  "checkForStalemate ep cr b cl =
     (if isKingInCheck b cl then False else \<not> anyValidMove ep cr b cl)"

text \<open>
  The union of the legal moves over every piece of a colour, as the specification words
  it (section 4.4); \<^verbatim>\<open>makeAIMove\<close> builds the same list for Black.
\<close>

definition legalMoveUnion ::
  "Position option \<Rightarrow> CastlingRights \<Rightarrow> Board \<Rightarrow> PieceColor \<Rightarrow> (Position \<times> Position) list" where
  "legalMoveUnion ep cr b cl =
     concat (map (\<lambda>p. map (\<lambda>to. (p, to)) (getValidMoves ep cr p b))
       (filter (hasColor b cl) allSquares))"

text \<open>\<^verbatim>\<open>boardToString\<close> (lines 441-455): the key used for repetition detection.\<close>

definition digitChar :: "nat \<Rightarrow> char" where
  "digitChar n = char_of (48 + n)"

function showNat :: "nat \<Rightarrow> string" where
  "showNat n = (if n < 10 then [digitChar n] else showNat (n div 10) @ [digitChar (n mod 10)])"
  by pat_completeness auto
termination
  by (relation "measure id") auto

definition showInt :: "int \<Rightarrow> string" where
  "showInt i = (if i < 0 then ''-'' @ showNat (nat (- i)) else showNat (nat i))"

definition colorStr :: "PieceColor \<Rightarrow> string" where
  "colorStr cl = (case cl of white \<Rightarrow> ''white'' | black \<Rightarrow> ''black'')"

definition typeStr :: "PieceType \<Rightarrow> string" where
  "typeStr t = (case t of king \<Rightarrow> ''king'' | queen \<Rightarrow> ''queen'' | rook \<Rightarrow> ''rook''
     | bishop \<Rightarrow> ''bishop'' | knight \<Rightarrow> ''knight'' | pawn \<Rightarrow> ''pawn'')"

definition boolStr :: "bool \<Rightarrow> string" where
  "boolStr x = (if x then ''true'' else ''false'')"

definition boardToString ::
  "Board \<Rightarrow> PieceColor \<Rightarrow> CastlingRights \<Rightarrow> Position option \<Rightarrow> string" where
  "boardToString b turn rights enPassant =
     concat (map (\<lambda>p. case pieceAt b (row p) (col p) of
         Some piece \<Rightarrow> take 1 (colorStr (color piece)) @ take 1 (typeStr (type piece))
                        @ showInt (row p) @ showInt (col p)
       | None \<Rightarrow> []) allSquares)
     @ ''|'' @ colorStr turn @ ''|''
     @ boolStr (whiteKingside rights) @ boolStr (whiteQueenside rights)
     @ boolStr (blackKingside rights) @ boolStr (blackQueenside rights)
     @ (case enPassant of Some e \<Rightarrow> ''|ep'' @ showInt (row e) @ showInt (col e) | None \<Rightarrow> [])"

text \<open>\<^verbatim>\<open>hasInsufficientMaterial\<close> (lines 457-504).\<close>

definition nonKingPieces :: "Board \<Rightarrow> Piece list" where
  "nonKingPieces b =
     concat (map (\<lambda>p. case pieceAt b (row p) (col p) of
         Some piece \<Rightarrow> if type piece \<noteq> king then [piece] else []
       | None \<Rightarrow> []) allSquares)"

text \<open>The second scan: the first bishop found, and the last one found after it.\<close>

definition findBishops :: "Board \<Rightarrow> Position option \<times> Position option" where
  "findBishops b =
     fold (\<lambda>p (bishop1Pos, bishop2Pos).
         if hasType b bishop (row p) (col p) then
           (if bishop1Pos = None then (Some p, bishop2Pos) else (bishop1Pos, Some p))
         else (bishop1Pos, bishop2Pos))
       allSquares (None, None)"

definition hasInsufficientMaterial :: "Board \<Rightarrow> bool" where
  "hasInsufficientMaterial b =
     (let pieces = nonKingPieces b in
      if length pieces = 0 then True
      else if length pieces = 1 then
        (let piece = pieces ! 0 in type piece = bishop \<or> type piece = knight)
      else if length pieces = 2 \<and> type (pieces ! 0) = bishop \<and> type (pieces ! 1) = bishop then
        (case findBishops b of
           (Some bishop1Pos, Some bishop2Pos) \<Rightarrow>
             (row bishop1Pos + col bishop1Pos) mod 2 = (row bishop2Pos + col bishop2Pos) mod 2
         | _ \<Rightarrow> False)
      else False)"

section \<open>Component state and move application (lines 79-103 and 506-987)\<close>

text \<open>
  The \<^verbatim>\<open>useState\<close> cells of the component.  \<open>capturedWhite\<close> and \<open>capturedBlack\<close> are the
  two lists of \<^verbatim>\<open>capturedPieces\<close>.  Sounds and routing carry no game state and are left out.
\<close>

record GameState =
  board :: Board
  selectedSquare :: "Position option"
  validMoves :: "Position list"
  currentTurn :: PieceColor
  capturedWhite :: "Piece list"
  capturedBlack :: "Piece list"
  castlingRights :: CastlingRights
  enPassantTarget :: "Position option"
  promotionSquare :: "Position option"
  whiteInCheck :: bool
  blackInCheck :: bool
  isCheckmate :: bool
  isStalemate :: bool
  isDraw :: bool
  drawReason :: string
  halfMoveClock :: int
  positionHistory :: "string list"
  hintMove :: "(Position \<times> Position) option"

definition initializeBoard :: Board where
  "initializeBoard =
     [map (\<lambda>t. Some \<lparr>type = t, color = black\<rparr>)
        [rook, knight, bishop, queen, king, bishop, knight, rook],
      replicate 8 (Some \<lparr>type = pawn, color = black\<rparr>),
      replicate 8 None, replicate 8 None, replicate 8 None, replicate 8 None,
      replicate 8 (Some \<lparr>type = pawn, color = white\<rparr>),
      map (\<lambda>t. Some \<lparr>type = t, color = white\<rparr>)
        [rook, knight, bishop, queen, king, bishop, knight, rook]]"

definition allRights :: CastlingRights where
  "allRights = \<lparr>whiteKingside = True, whiteQueenside = True,
                blackKingside = True, blackQueenside = True\<rparr>"

definition initialState :: GameState where
  "initialState = \<lparr>board = initializeBoard, selectedSquare = None, validMoves = [],
     currentTurn = white, capturedWhite = [], capturedBlack = [], castlingRights = allRights,
     enPassantTarget = None, promotionSquare = None, whiteInCheck = False,
     blackInCheck = False, isCheckmate = False, isStalemate = False, isDraw = False,
     drawReason = [], halfMoveClock = 0, positionHistory = [], hintMove = None\<rparr>"

text \<open>
  The board part of a move application, written twice in the source (lines 730-764 with
  791-793 for the human, lines 565-597 with 624-626 for the opponent): the captured piece,
  the en passant removal, the castling rook relocation and the placement of the moved
  piece.  The result is \<open>(newBoard, capturedPiece, isCapture)\<close>.
\<close>

definition applyOnBoard ::
  "Position option \<Rightarrow> Piece \<Rightarrow> Position \<Rightarrow> Position \<Rightarrow> Board \<Rightarrow> Board \<times> Piece option \<times> bool" where
  "applyOnBoard ep movingPiece from to b =
     (let capturedPiece0 = pieceAt b (row to) (col to);
          isEnPassant = (type movingPiece = pawn \<and> isEnPassantSquare ep (row to) (col to));
          capturedPawnRow = (if color movingPiece = white then row to + 1 else row to - 1);
          capturedPiece = (if isEnPassant then pieceAt b capturedPawnRow (col to)
                           else capturedPiece0);
          isCapture = (isEnPassant \<or> capturedPiece0 \<noteq> None);
          nb1 = (if isEnPassant then setAt b capturedPawnRow (col to) None else b);
          isCastling = (type movingPiece = king \<and> \<bar>col to - col from\<bar> = 2);
          nb2 = (if isCastling then
                   (let isKingside = col to > col from;
                        rookFromCol = (if isKingside then 7 else 0 :: int);
                        rookToCol = (if isKingside then 5 else 3 :: int);
                        nb = setAt nb1 (row from) rookToCol (pieceAt nb1 (row from) rookFromCol)
                    in setAt nb (row from) rookFromCol None)
                 else nb1);
          nb3 = setAt nb2 (row to) (col to) (Some movingPiece)
      in (setAt nb3 (row from) (col from) None, capturedPiece, isCapture))"

text \<open>
  The castling-rights update (lines 766-781 for the human, 599-614 for the opponent): the
  two copies differ in the colour whose rook moves are looked at, the parameter \<open>side\<close>.
\<close>

definition updateCastlingRights ::
  "PieceColor \<Rightarrow> Piece \<Rightarrow> Position \<Rightarrow> CastlingRights \<Rightarrow> CastlingRights" where
  "updateCastlingRights side movingPiece from cr =
     (let cr1 = (if type movingPiece = king then
                   (if color movingPiece = white
                    then cr\<lparr>whiteKingside := False, whiteQueenside := False\<rparr>
                    else cr\<lparr>blackKingside := False, blackQueenside := False\<rparr>)
                 else cr)
      in if type movingPiece = rook \<and> color movingPiece = side then
           (let cr2 = (if col from = 0 then
                         (if side = white then cr1\<lparr>whiteQueenside := False\<rparr>
                          else cr1\<lparr>blackQueenside := False\<rparr>)
                       else cr1)
            in if col from = 7 then
                 (if side = white then cr2\<lparr>whiteKingside := False\<rparr>
                  else cr2\<lparr>blackKingside := False\<rparr>)
               else cr2)
         else cr1)"

text \<open>The en passant target set by a move (lines 783-789 and 616-622).\<close>

definition newEnPassantOf :: "Piece \<Rightarrow> Position \<Rightarrow> Position \<Rightarrow> Position option" where
  "newEnPassantOf movingPiece from to =
     (if type movingPiece = pawn \<and> \<bar>row to - row from\<bar> = 2 then
        Some \<lparr>row = (if color movingPiece = white then row from - 1 else row from + 1),
              col = col from\<rparr>
      else None)"

text \<open>The half-move clock written by a move (lines 827-830 and 662-665).\<close>

definition newHalfMoveClockOf :: "Piece \<Rightarrow> bool \<Rightarrow> int \<Rightarrow> int" where
  "newHalfMoveClockOf movingPiece isCapture clock =
     (let isPawnMove = (type movingPiece = pawn) in
      if isPawnMove \<or> isCapture then 0 else clock + 1)"

text \<open>
  A call \<^verbatim>\<open>makeAIMove(board, rights, enPassant)\<close> scheduled with \<^verbatim>\<open>setTimeout\<close>.
\<close>

type_synonym AICall = "Board \<times> CastlingRights \<times> Position option"

text \<open>
  The end of the move branch of \<^verbatim>\<open>handleSquareClick\<close> (lines 839-886), after the half-move
  clock: the position history, the repetition and material draws, check, checkmate and
  stalemate of Black, and the scheduling of the opponent.  \<open>s\<close> is the state the handler
  reads, \<open>s3\<close> the state written so far.
\<close>

definition afterHumanMove ::
  "GameState \<Rightarrow> GameState \<Rightarrow> Board \<Rightarrow> CastlingRights \<Rightarrow> Position option
     \<Rightarrow> GameState \<times> AICall option" where
  "afterHumanMove s s3 newBoard newCastlingRights newEnPassant =
     (let newPositionString = boardToString newBoard black newCastlingRights newEnPassant;
          newHistory = positionHistory s @ [newPositionString];
          s4 = s3\<lparr>positionHistory := newHistory\<rparr>;
          positionCount = length (filter (\<lambda>pos. pos = newPositionString) newHistory)
      in if positionCount \<ge> 3 then
           (s4\<lparr>isDraw := True, drawReason := ''Threefold repetition''\<rparr>, None)
         else if hasInsufficientMaterial newBoard then
           (s4\<lparr>isDraw := True, drawReason := ''Insufficient material''\<rparr>, None)
         else
           (let checkBlack = isKingInCheck newBoard black;
                s5 = s4\<lparr>blackInCheck := checkBlack, whiteInCheck := False\<rparr>
            in if checkBlack \<and> checkForCheckmate (enPassantTarget s) (castlingRights s)
                    newBoard black then
                 (s5\<lparr>isCheckmate := True\<rparr>, None)
               else if \<not> checkBlack \<and> checkForStalemate (enPassantTarget s) (castlingRights s)
                    newBoard black then
                 (s5\<lparr>isStalemate := True, isDraw := True, drawReason := ''Stalemate''\<rparr>, None)
               else
                 (s5\<lparr>currentTurn := black\<rparr>,
                  Some (newBoard, newCastlingRights, newEnPassant))))"

text \<open>
  The move branch of \<^verbatim>\<open>handleSquareClick\<close> (lines 724-886) for the selected square \<open>sel\<close>
  and the clicked square \<open>(r, c)\<close>.  The handler reads the state \<open>s\<close> of the render it was
  created in and every \<^verbatim>\<open>set...\<close> call overwrites one field; the legality functions it
  calls close over \<open>enPassantTarget s\<close> and \<open>castlingRights s\<close>.
\<close>

definition applyHumanMove :: "GameState \<Rightarrow> Position \<Rightarrow> int \<Rightarrow> int \<Rightarrow> GameState \<times> AICall option" where
  "applyHumanMove s sel r c =
     (let s0 = s\<lparr>hintMove := None\<rparr> in
      case pieceAt (board s) (row sel) (col sel) of
        None \<Rightarrow> (s0, None)
      | Some movingPiece \<Rightarrow>
          if hasType (board s) king r c then
            (s0\<lparr>selectedSquare := None, validMoves := []\<rparr>, None)
          else
            (let to = \<lparr>row = r, col = c\<rparr>;
                 (newBoard, capturedPiece, isCapture) =
                    applyOnBoard (enPassantTarget s) movingPiece sel to (board s);
                 newCastlingRights = updateCastlingRights white movingPiece sel (castlingRights s);
                 newEnPassant = newEnPassantOf movingPiece sel to
             in if type movingPiece = pawn \<and> r = 0 then
                  (s0\<lparr>promotionSquare := Some to, board := newBoard,
                      selectedSquare := None, validMoves := []\<rparr>, None)
                else
                  (let s1 = (if isCapture then
                               (case capturedPiece of
                                  Some cp \<Rightarrow> s0\<lparr>capturedBlack := capturedBlack s0 @ [cp]\<rparr>
                                | None \<Rightarrow> s0)
                             else s0);
                       s2 = s1\<lparr>board := newBoard, castlingRights := newCastlingRights,
                               enPassantTarget := newEnPassant,
                               selectedSquare := None, validMoves := []\<rparr>;
                       newHalfMoveClock = newHalfMoveClockOf movingPiece isCapture (halfMoveClock s);
                       s3 = s2\<lparr>halfMoveClock := newHalfMoveClock\<rparr>
                   in if newHalfMoveClock \<ge> 100 then
                        (s3\<lparr>isDraw := True, drawReason := ''Fifty-move rule''\<rparr>, None)
                      else afterHumanMove s s3 newBoard newCastlingRights newEnPassant)))"

definition handleSquareClick :: "GameState \<Rightarrow> int \<Rightarrow> int \<Rightarrow> GameState \<times> AICall option" where
  "handleSquareClick s r c =
     (if currentTurn s \<noteq> white \<or> isCheckmate s \<or> isDraw s \<or> promotionSquare s \<noteq> None then
        (s, None)
      else if selectedSquare s \<noteq> None
              \<and> list_ex (\<lambda>m. row m = r \<and> col m = c) (validMoves s) then
        applyHumanMove s (the (selectedSquare s)) r c
      else if hasColor (board s) white \<lparr>row = r, col = c\<rparr> then
        (let pieceMoves = getValidMoves (enPassantTarget s) (castlingRights s)
                            \<lparr>row = r, col = c\<rparr> (board s)
         in if whiteInCheck s \<and> length pieceMoves = 0 then
              (s\<lparr>hintMove := None, selectedSquare := None, validMoves := []\<rparr>, None)
            else
              (s\<lparr>hintMove := None, selectedSquare := Some \<lparr>row = r, col = c\<rparr>,
                 validMoves := pieceMoves\<rparr>, None))
      else (s\<lparr>selectedSquare := None, validMoves := []\<rparr>, None))"

text \<open>
  \<^verbatim>\<open>handlePromotion\<close> (lines 925-956).  It schedules the opponent with the
  \<^verbatim>\<open>castlingRights\<close> and \<^verbatim>\<open>enPassantTarget\<close> of the state it reads.
\<close>

definition handlePromotion :: "PieceType \<Rightarrow> GameState \<Rightarrow> GameState \<times> AICall option" where
  "handlePromotion pieceType s =
     (case promotionSquare s of
        None \<Rightarrow> (s, None)
      | Some ps \<Rightarrow>
          (let newBoard = setAt (board s) (row ps) (col ps)
                            (Some \<lparr>type = pieceType, color = white\<rparr>);
               checkBlack = isKingInCheck newBoard black;
               s1 = s\<lparr>board := newBoard, promotionSquare := None,
                      blackInCheck := checkBlack, whiteInCheck := False\<rparr>
           in if checkBlack \<and> checkForCheckmate (enPassantTarget s) (castlingRights s)
                   newBoard black then
                (s1\<lparr>isCheckmate := True\<rparr>, None)
              else
                (s1\<lparr>currentTurn := black\<rparr>,
                 Some (newBoard, castlingRights s, enPassantTarget s))))"

definition handleReset :: "GameState \<Rightarrow> GameState" where
  "handleReset s = initialState"

definition handleResign :: "GameState \<Rightarrow> GameState" where
  "handleResign s = s\<lparr>isCheckmate := True, drawReason := ''White resigned''\<rparr>"

section \<open>Opponent move selector and opponent move (lines 506-715)\<close>

text \<open>
  The choice of lines 539-559.  \<open>rnd n\<close> stands for \<^verbatim>\<open>Math.floor(Math.random() * n)\<close>,
  a number below \<open>n\<close> for positive \<open>n\<close>; \<open>aiMovePool\<close> is the list the index is drawn from.
\<close>

type_synonym Move = "Position \<times> Position"

definition kingMoves :: "Board \<Rightarrow> Move list \<Rightarrow> Move list" where
  "kingMoves currentBoard allMoves =
     filter (\<lambda>m. hasType currentBoard king (row (fst m)) (col (fst m))) allMoves"

definition captureMoves :: "Board \<Rightarrow> Move list \<Rightarrow> Move list" where
  "captureMoves currentBoard allMoves =
     filter (\<lambda>m. pieceAt currentBoard (row (snd m)) (col (snd m)) \<noteq> None) allMoves"

definition aiMovePool :: "Board \<Rightarrow> bool \<Rightarrow> Move list \<Rightarrow> Move list" where
  "aiMovePool currentBoard blackInCheckNow allMoves =
     (if blackInCheckNow then
        (if length (kingMoves currentBoard allMoves) > 0 then kingMoves currentBoard allMoves
         else if length (captureMoves currentBoard allMoves) > 0
         then captureMoves currentBoard allMoves
         else allMoves)
      else allMoves)"

definition chooseMove :: "(nat \<Rightarrow> nat) \<Rightarrow> Board \<Rightarrow> bool \<Rightarrow> Move list \<Rightarrow> Move" where
  "chooseMove rnd currentBoard blackInCheckNow allMoves =
     (let pool = aiMovePool currentBoard blackInCheckNow allMoves
      in pool ! rnd (length pool))"

text \<open>
  \<^verbatim>\<open>makeAIMove\<close>.  The function runs from a timer, with the closure of the render that
  scheduled it: \<open>cl\<close> is the state of that render, from which it reads \<^verbatim>\<open>halfMoveClock\<close>
  and \<^verbatim>\<open>positionHistory\<close> and over which its legality functions close; \<open>st\<close> is the state
  its \<^verbatim>\<open>set...\<close> calls overwrite.  The selector is \<open>None\<close> when Black has no legal move.
  \<open>afterAIMove\<close> is the end of the function (lines 674-714), after the half-move clock.
\<close>

definition selectAIMove ::
  "Position option \<Rightarrow> CastlingRights \<Rightarrow> (nat \<Rightarrow> nat) \<Rightarrow> Board \<Rightarrow> Move option" where
  "selectAIMove ep cr rnd currentBoard =
     (let blackInCheckNow = isKingInCheck currentBoard black;
          allMoves = legalMoveUnion ep cr currentBoard black
      in if length allMoves = 0 then None
         else Some (chooseMove rnd currentBoard blackInCheckNow allMoves))"

definition afterAIMove ::
  "GameState \<Rightarrow> GameState \<Rightarrow> Board \<Rightarrow> CastlingRights \<Rightarrow> Position option \<Rightarrow> GameState" where
  "afterAIMove cl s3 newBoard newCastlingRights newEnPassant =
     (let newPositionString = boardToString newBoard white newCastlingRights newEnPassant;
          newHistory = positionHistory cl @ [newPositionString];
          s4 = s3\<lparr>positionHistory := newHistory\<rparr>;
          positionCount = length (filter (\<lambda>pos. pos = newPositionString) newHistory)
      in if positionCount \<ge> 3 then
           s4\<lparr>isDraw := True, drawReason := ''Threefold repetition''\<rparr>
         else if hasInsufficientMaterial newBoard then
           s4\<lparr>isDraw := True, drawReason := ''Insufficient material''\<rparr>
         else
           (let checkWhite = isKingInCheck newBoard white;
                s5 = s4\<lparr>whiteInCheck := checkWhite, blackInCheck := False\<rparr>;
                s6 = (if checkWhite \<and> checkForCheckmate (enPassantTarget cl)
                         (castlingRights cl) newBoard white
                      then s5\<lparr>isCheckmate := True\<rparr> else s5)
            in if \<not> checkWhite \<and> checkForStalemate (enPassantTarget cl)
                    (castlingRights cl) newBoard white then
                 s6\<lparr>isStalemate := True, isDraw := True, drawReason := ''Stalemate''\<rparr>
               else s6\<lparr>currentTurn := white\<rparr>))"

definition applyAIMove ::
  "GameState \<Rightarrow> Move \<Rightarrow> Board \<Rightarrow> CastlingRights \<Rightarrow> Position option \<Rightarrow> GameState \<Rightarrow> GameState" where
  "applyAIMove cl randomMove currentBoard currentCastlingRights currentEnPassant st =
     (let from = fst randomMove; to = snd randomMove in
      case pieceAt currentBoard (row from) (col from) of
        None \<Rightarrow> st
      | Some movingPiece \<Rightarrow>
          if hasType currentBoard king (row to) (col to) then st
          else
            (let (newBoard0, capturedPiece, isCapture) =
                    applyOnBoard currentEnPassant movingPiece from to currentBoard;
                 newCastlingRights =
                    updateCastlingRights black movingPiece from currentCastlingRights;
                 newEnPassant = newEnPassantOf movingPiece from to;
                 newBoard = (if type movingPiece = pawn \<and> row to = 7
                             then setAt newBoard0 (row to) (col to)
                                    (Some \<lparr>type = queen, color = black\<rparr>)
                             else newBoard0);
                 s1 = (if isCapture then
                         (case capturedPiece of
                            Some cp \<Rightarrow> st\<lparr>capturedWhite := capturedWhite st @ [cp]\<rparr>
                          | None \<Rightarrow> st)
                       else st)
             in if isKingInCheck newBoard black then s1
                else
                  (let s2 = s1\<lparr>board := newBoard, castlingRights := newCastlingRights,
                               enPassantTarget := newEnPassant\<rparr>;
                       newHalfMoveClock = newHalfMoveClockOf movingPiece isCapture (halfMoveClock cl);
                       s3 = s2\<lparr>halfMoveClock := newHalfMoveClock\<rparr>
                   in if newHalfMoveClock \<ge> 100 then
                        s3\<lparr>isDraw := True, drawReason := ''Fifty-move rule''\<rparr>
                      else afterAIMove cl s3 newBoard newCastlingRights newEnPassant)))"

definition makeAIMove ::
  "GameState \<Rightarrow> (nat \<Rightarrow> nat) \<Rightarrow> Board \<Rightarrow> CastlingRights \<Rightarrow> Position option \<Rightarrow> GameState \<Rightarrow> GameState" where
  "makeAIMove cl rnd currentBoard currentCastlingRights currentEnPassant st =
     (case selectAIMove (enPassantTarget cl) (castlingRights cl) rnd currentBoard of
        None \<Rightarrow>
          if checkForCheckmate (enPassantTarget cl) (castlingRights cl) currentBoard black
          then st\<lparr>isCheckmate := True\<rparr>
          else st\<lparr>isStalemate := True, isDraw := True, drawReason := ''Stalemate''\<rparr>
      | Some randomMove \<Rightarrow>
          applyAIMove cl randomMove currentBoard currentCastlingRights currentEnPassant st)"

text \<open>
  A click followed by the timer it started: the opponent's move runs with the closure of
  the render in which the click was handled, that is with the state \<open>s\<close> read by the click.
\<close>

definition runScheduled :: "GameState \<Rightarrow> (nat \<Rightarrow> nat) \<Rightarrow> GameState \<times> AICall option \<Rightarrow> GameState" where
  "runScheduled cl rnd res =
     (case snd res of
        None \<Rightarrow> fst res
      | Some (b, cr, ep) \<Rightarrow> makeAIMove cl rnd b cr ep (fst res))"

definition clickThenReply :: "(nat \<Rightarrow> nat) \<Rightarrow> GameState \<Rightarrow> int \<Rightarrow> int \<Rightarrow> GameState" where
  "clickThenReply rnd s r c = runScheduled s rnd (handleSquareClick s r c)"

section \<open>Positions used in the examples\<close>

definition emptyBoard :: Board where
  "emptyBoard = replicate 8 (replicate 8 None)"

definition place :: "Board \<Rightarrow> (int \<times> int \<times> PieceType \<times> PieceColor) list \<Rightarrow> Board" where
  "place b ps = fold (\<lambda>(r, c, t, cl) b'. setAt b' r c (Some \<lparr>type = t, color = cl\<rparr>)) ps b"

definition noRights :: CastlingRights where
  "noRights = \<lparr>whiteKingside = False, whiteQueenside = False,
               blackKingside = False, blackQueenside = False\<rparr>"

definition loneQueenBoard :: Board where
  "loneQueenBoard = place emptyBoard [(0, 0, king, black), (1, 2, queen, white)]"

definition staleBoard :: Board where
  "staleBoard = place emptyBoard
     [(0, 0, king, black), (1, 2, queen, white), (7, 7, king, white)]"


definition castleBoard :: Board where
  "castleBoard = place emptyBoard
     [(7, 4, king, white), (7, 0, rook, white), (7, 7, rook, white), (0, 4, king, black)]"

text \<open>The back rank of a colour: \<^verbatim>\<open>baseRow\<close> in the castling code.\<close>

definition homeRow :: "PieceColor \<Rightarrow> int" where
  "homeRow cl = (if cl = white then 7 else 0)"

section \<open>Material, by squares\<close>

text \<open>
  The squares holding a piece other than a king, in scan order, and the tests on the
  piece of a square that the material rule uses.
\<close>

definition isNonKingAt :: "Board \<Rightarrow> Position \<Rightarrow> bool" where
  "isNonKingAt b p =
     (case pieceAt b (row p) (col p) of Some q \<Rightarrow> type q \<noteq> king | None \<Rightarrow> False)"

definition nonKingSquares :: "Board \<Rightarrow> Position list" where
  "nonKingSquares b = filter (isNonKingAt b) allSquares"

definition isBishopAt :: "Board \<Rightarrow> Position \<Rightarrow> bool" where
  "isBishopAt b p = hasType b bishop (row p) (col p)"

definition isMinorAt :: "Board \<Rightarrow> Position \<Rightarrow> bool" where
  "isMinorAt b p = (hasType b bishop (row p) (col p) \<or> hasType b knight (row p) (col p))"

definition squareColor :: "Position \<Rightarrow> int" where
  "squareColor p = (row p + col p) mod 2"

text \<open>The step of the bishop scan of \<^verbatim>\<open>hasInsufficientMaterial\<close>, named.\<close>

definition bishopStep ::
  "Board \<Rightarrow> Position \<Rightarrow> Position option \<times> Position option
     \<Rightarrow> Position option \<times> Position option" where
  "bishopStep b = (\<lambda>p (bishop1Pos, bishop2Pos).
         if hasType b bishop (row p) (col p) then
           (if bishop1Pos = None then (Some p, bishop2Pos) else (bishop1Pos, Some p))
         else (bishop1Pos, bishop2Pos))"

text \<open>
  The material combinations as the specification lists them (section 4.4), by side: bare
  kings; one side with a single bishop or knight against a bare king; one bishop each, on
  squares of the same colour.  \<open>kingCount\<close> counts the kings of a colour.
\<close>

definition isSideAt :: "Board \<Rightarrow> PieceColor \<Rightarrow> Position \<Rightarrow> bool" where
  "isSideAt b cl p =
     (case pieceAt b (row p) (col p) of
        Some q \<Rightarrow> type q \<noteq> king \<and> color q = cl | None \<Rightarrow> False)"

definition sideSquares :: "Board \<Rightarrow> PieceColor \<Rightarrow> Position list" where
  "sideSquares b cl = filter (isSideAt b cl) allSquares"

definition kingCount :: "Board \<Rightarrow> PieceColor \<Rightarrow> nat" where
  "kingCount b cl = length (filter (\<lambda>p. isPiece b king cl (row p) (col p)) allSquares)"

definition claimedInsufficient :: "Board \<Rightarrow> bool" where
  "claimedInsufficient b =
     (case (sideSquares b white, sideSquares b black) of
        ([], []) \<Rightarrow> True
      | ([p], []) \<Rightarrow> isMinorAt b p
      | ([], [q]) \<Rightarrow> isMinorAt b q
      | ([p], [q]) \<Rightarrow> isBishopAt b p \<and> isBishopAt b q \<and> squareColor p = squareColor q
      | _ \<Rightarrow> False)"

definition twoBishopsBoard :: Board where
  "twoBishopsBoard = place emptyBoard
     [(0, 4, king, black), (7, 4, king, white), (4, 4, bishop, white), (3, 3, bishop, white)]"

definition bishopEachBoard :: Board where
  "bishopEachBoard = place emptyBoard
     [(0, 4, king, black), (7, 4, king, white), (4, 4, bishop, white), (3, 3, bishop, black)]"

section \<open>The selection policy as the specification words it\<close>

text \<open>
  Section 4.6, read in order: in check with a legal king move, the king moves; else, with
  a legal move landing on an occupied enemy square, those captures; else all legal moves.
  The selecting colour is Black.
\<close>

definition enemyCaptures :: "Board \<Rightarrow> Move list \<Rightarrow> Move list" where
  "enemyCaptures b allMoves =
     filter (\<lambda>m. case pieceAt b (row (snd m)) (col (snd m)) of
         Some q \<Rightarrow> color q \<noteq> black | None \<Rightarrow> False) allMoves"

definition claimedPool :: "Board \<Rightarrow> bool \<Rightarrow> Move list \<Rightarrow> Move list" where
  "claimedPool b inCheck allMoves =
     (if inCheck \<and> kingMoves b allMoves \<noteq> [] then kingMoves b allMoves
      else if enemyCaptures b allMoves \<noteq> [] then enemyCaptures b allMoves
      else allMoves)"

definition captureBoard :: Board where
  "captureBoard = place emptyBoard
     [(0, 0, king, black), (0, 7, rook, black), (1, 7, pawn, white), (7, 4, king, white)]"

definition checkedBoard :: Board where
  "checkedBoard = place emptyBoard
     [(0, 0, king, black), (1, 3, rook, black), (7, 0, rook, white), (7, 4, king, white)]"

definition firstIndex :: "nat \<Rightarrow> nat" where
  "firstIndex n = 0"

text \<open>The reasons written by the move handlers (the four \<^verbatim>\<open>setDrawReason\<close> calls of a move).\<close>

definition moveReasons :: "string set" where
  "moveReasons =
     {''Fifty-move rule'', ''Threefold repetition'', ''Insufficient material'', ''Stalemate''}"

text \<open>
  The position key of a state for a side to move, and the number of times a key occurs in
  the history of a state.
\<close>

definition positionKey :: "PieceColor \<Rightarrow> GameState \<Rightarrow> string" where
  "positionKey turn s = boardToString (board s) turn (castlingRights s) (enPassantTarget s)"

definition repetitions :: "GameState \<Rightarrow> string \<Rightarrow> nat" where
  "repetitions s k = length (filter (\<lambda>pos. pos = k) (positionHistory s))"

text \<open>A state on a given board, White to move, with a given context.\<close>

definition stateOn :: "Board \<Rightarrow> Position option \<Rightarrow> int \<Rightarrow> string list \<Rightarrow> GameState" where
  "stateOn b ep clock history =
     initialState\<lparr>board := b, castlingRights := noRights, enPassantTarget := ep,
                  halfMoveClock := clock, positionHistory := history\<rparr>"

text \<open>
  White to move with a pawn on h7; Black's a-pawn has just advanced two squares, so the
  en passant target is a6.  The pawn is selected with a click, as the interface does.
\<close>

definition promotionBoard :: Board where
  "promotionBoard = place emptyBoard
     [(7, 4, king, white), (4, 4, king, black), (1, 7, pawn, white),
      (3, 0, pawn, black), (1, 1, pawn, black)]"

definition promotionSelected :: "Position option \<Rightarrow> int \<Rightarrow> GameState" where
  "promotionSelected ep clock = fst (handleSquareClick (stateOn promotionBoard ep clock []) 1 7)"

text \<open>Two kings and a white rook, the king selected, 99 half-moves on the clock.\<close>

definition quietBoard :: Board where
  "quietBoard = place emptyBoard [(7, 4, king, white), (7, 0, rook, white), (0, 4, king, black)]"

definition quietSelected :: "int \<Rightarrow> GameState" where
  "quietSelected clock = fst (handleSquareClick (stateOn quietBoard None clock []) 7 4)"

section \<open>The en passant target and the board\<close>

text \<open>
  The en passant target as the specification describes it (section 3): the square a pawn
  skipped over on its immediately preceding double step.  For the side to move \<open>cl\<close> that
  square is empty and the pawn of the other colour that made the step stands just beyond
  it.
\<close>

definition enPassantConsistent :: "Position option \<Rightarrow> Board \<Rightarrow> PieceColor \<Rightarrow> bool" where
  "enPassantConsistent ep b cl =
     (case ep of
        None \<Rightarrow> True
      | Some e \<Rightarrow>
          pieceAt b (row e) (col e) = None
          \<and> isPiece b pawn (opponent cl) (if cl = white then row e + 1 else row e - 1) (col e))"



text \<open>
  Black king h7, black pawn b7, white rook a7, with a target a6 left over from an earlier
  double step of Black's a-pawn.
\<close>

definition staleTargetBoard :: Board where
  "staleTargetBoard = place emptyBoard
     [(1, 7, king, black), (1, 1, pawn, black), (1, 0, rook, white), (7, 4, king, white)]"

text \<open>The first game position with White's e-pawn selected by a click.\<close>

definition openingSelected :: GameState where
  "openingSelected = fst (handleSquareClick initialState 6 4)"

text \<open>Two boards that differ in the squares of Black's king and knight.\<close>

definition kingKnightBoard :: Board where
  "kingKnightBoard = place emptyBoard
     [(0, 4, king, black), (0, 6, knight, black), (7, 4, king, white)]"

definition knightKingBoard :: Board where
  "knightKingBoard = place emptyBoard
     [(0, 4, knight, black), (0, 6, king, black), (7, 4, king, white)]"

section \<open>Basic facts\<close>

declare attackRay.simps [simp del] slideRay.simps [simp del] showNat.simps [simp del]

lemma set_allSquares: "set allSquares = {p. validPos p}"
proof -
  have "\<And>p. validPos p \<Longrightarrow> p \<in> set allSquares"
  proof -
    fix p :: Position
    assume v: "validPos p"
    obtain r c where p: "p = \<lparr>row = r, col = c\<rparr>" by (cases p) auto
    from v p have "r \<in> {0..7}" "c \<in> {0..7}" by (auto simp: validPos_def isValidSquare_def)
    then show "p \<in> set allSquares" unfolding allSquares_def p by force
  qed
  moreover have "\<And>p. p \<in> set allSquares \<Longrightarrow> validPos p"
    unfolding allSquares_def validPos_def isValidSquare_def by auto
  ultimately show ?thesis by auto
qed

lemma list_all_allSquares: "list_all P allSquares \<longleftrightarrow> (\<forall>p. validPos p \<longrightarrow> P p)"
  by (simp add: list_all_iff set_allSquares)

lemma isPiece_Some:
  "isPiece b t cl r c \<longleftrightarrow> pieceAt b r c = Some \<lparr>type = t, color = cl\<rparr>"
  unfolding isPiece_def by (auto split: option.splits)

subsection \<open>The king search\<close>

lemma findKing_Some:
  "findKing b cl = Some p \<Longrightarrow> validPos p \<and> isPiece b king cl (row p) (col p)"
  unfolding findKing_def using set_allSquares
  by (auto simp: find_Some_iff)

lemma findKing_None:
  "findKing b cl = None \<longleftrightarrow> (\<forall>p. validPos p \<longrightarrow> \<not> isPiece b king cl (row p) (col p))"
  unfolding findKing_def using set_allSquares by (auto simp: find_None_iff)

lemma findKing_unique:
  assumes "validPos kp" "isPiece b king cl (row kp) (col kp)"
    and "\<forall>q. validPos q \<and> isPiece b king cl (row q) (col q) \<longrightarrow> q = kp"
  shows "findKing b cl = Some kp"
proof (cases "findKing b cl")
  case None
  with assms show ?thesis by (simp add: findKing_None)
next
  case (Some p)
  from findKing_Some [OF Some] assms(3) have "p = kp" by blast
  with Some show ?thesis by simp
qed

lemma anyValidMove_union:
  "anyValidMove ep cr b cl \<longleftrightarrow> legalMoveUnion ep cr b cl \<noteq> []"
  unfolding anyValidMove_def legalMoveUnion_def
  by (auto simp: list_ex_iff)

section \<open>C10: a board without a king of the colour\<close>

text \<open>
  Claim C10.  On a board with no king of the given colour \<^verbatim>\<open>findKing\<close> returns null and
  \<^verbatim>\<open>isKingInCheck\<close> returns false instead of failing; hence \<^verbatim>\<open>checkForCheckmate\<close> is
  false there, and \<^verbatim>\<open>checkForStalemate\<close> is true exactly when the colour has no legal move.
\<close>

theorem isKingInCheck_without_king:
  assumes "wf_board b"
    and "\<forall>p. validPos p \<longrightarrow> pieceAt b (row p) (col p) \<noteq> Some \<lparr>type = king, color = cl\<rparr>"
  shows "findKing b cl = None \<and> isKingInCheck b cl = False
         \<and> checkForCheckmate ep cr b cl = False
         \<and> checkForStalemate ep cr b cl = (legalMoveUnion ep cr b cl = [])"
proof -
  from assms(2) have fk: "findKing b cl = None"
    by (simp add: findKing_None isPiece_Some)
  then have "\<not> isKingInCheck b cl" by (simp add: isKingInCheck_def)
  then show ?thesis using fk
    by (simp add: checkForCheckmate_def checkForStalemate_def anyValidMove_union)
qed

lemma loneQueenBoard_no_white_king:
  "\<forall>p. validPos p \<longrightarrow>
     pieceAt loneQueenBoard (row p) (col p) \<noteq> Some \<lparr>type = king, color = white\<rparr>"
proof -
  have "list_all (\<lambda>p. pieceAt loneQueenBoard (row p) (col p)
                      \<noteq> Some \<lparr>type = king, color = white\<rparr>) allSquares"
    by code_simp
  then show ?thesis by (simp add: list_all_allSquares)
qed

theorem isKingInCheck_without_king_witness:
  "wf_board loneQueenBoard
   \<and> list_all (\<lambda>p. pieceAt loneQueenBoard (row p) (col p)
                    \<noteq> Some \<lparr>type = king, color = white\<rparr>) allSquares
   \<and> findKing loneQueenBoard white = None \<and> isKingInCheck loneQueenBoard white = False
   \<and> checkForCheckmate None noRights loneQueenBoard white = False
   \<and> checkForStalemate None noRights loneQueenBoard white = False"
proof -
  have w: "wf_board loneQueenBoard" by code_simp
  note k = loneQueenBoard_no_white_king
  have u: "legalMoveUnion None noRights loneQueenBoard white \<noteq> []" by code_simp
  show ?thesis
    using isKingInCheck_without_king [OF w k, of None noRights] w k u
    by (simp add: list_all_allSquares)
qed

section \<open>C2: checkmate and stalemate\<close>

text \<open>
  Claim C2.  \<^verbatim>\<open>checkForCheckmate\<close> and \<^verbatim>\<open>checkForStalemate\<close> are never both true; each is
  true only when the union of \<^verbatim>\<open>getValidMoves\<close> over the pieces of the colour is empty, and
  they differ exactly in \<^verbatim>\<open>isKingInCheck\<close>: checkmate is check with an empty union,
  stalemate is no check with an empty union.
\<close>

theorem checkmate_stalemate_exclusive:
  assumes "wf_board b"
  shows "\<not> (checkForCheckmate ep cr b cl \<and> checkForStalemate ep cr b cl)
     \<and> (checkForCheckmate ep cr b cl \<longrightarrow> legalMoveUnion ep cr b cl = [])
     \<and> (checkForStalemate ep cr b cl \<longrightarrow> legalMoveUnion ep cr b cl = [])
     \<and> checkForCheckmate ep cr b cl = (isKingInCheck b cl \<and> legalMoveUnion ep cr b cl = [])
     \<and> checkForStalemate ep cr b cl = (\<not> isKingInCheck b cl \<and> legalMoveUnion ep cr b cl = [])"
proof -
  have mate: "checkForCheckmate ep cr b cl
              = (isKingInCheck b cl \<and> legalMoveUnion ep cr b cl = [])"
    by (simp add: checkForCheckmate_def anyValidMove_union)
  have stale: "checkForStalemate ep cr b cl
               = (\<not> isKingInCheck b cl \<and> legalMoveUnion ep cr b cl = [])"
    by (simp add: checkForStalemate_def anyValidMove_union)
  from mate stale show ?thesis by blast
qed

theorem checkmate_stalemate_exclusive_witness:
  "wf_board staleBoard
   \<and> checkForStalemate None noRights staleBoard black
   \<and> \<not> checkForCheckmate None noRights staleBoard black
   \<and> \<not> isKingInCheck staleBoard black
   \<and> legalMoveUnion None noRights staleBoard black = []"
proof -
  have w: "wf_board staleBoard" by code_simp
  have s: "checkForStalemate None noRights staleBoard black" by code_simp
  show ?thesis
    using checkmate_stalemate_exclusive [OF w, of None noRights black] w s by simp
qed

section \<open>C3: castling in the pseudo-legal generator\<close>

lemma attacked_by_rook_ray:
  "(dr, dc) \<in> set straightDirs \<Longrightarrow>
   attackRay b byColor rook (row pos + dr) (col pos + dc) dr dc \<Longrightarrow>
   isSquareUnderAttack pos b byColor"
  unfolding isSquareUnderAttack_def Let_def list_ex_iff by blast

lemma stepMoves_king_col:
  "m \<in> set (stepMoves b cl r 4 kingDirs) \<Longrightarrow> col m = 3 \<or> col m = 4 \<or> col m = 5"
  by (auto simp: stepMoves_def kingDirs_def split: if_splits)

text \<open>
  A rook on the corner with nothing between it and the e-file attacks the e-file square
  of its rank.  The castling code tests only the type of the corner piece; by these two
  lemmas a corner rook of the other colour already gives check, so no castling move is
  generated with it.
\<close>

lemma rook_attacks_along_rank_right:
  assumes "isValidSquare br 4"
    and "pieceAt b br 5 = None" and "pieceAt b br 6 = None"
    and "pieceAt b br 7 = Some p" and "type p = rook" and "color p = byColor"
  shows "isSquareUnderAttack \<lparr>row = br, col = 4\<rparr> b byColor"
proof -
  from assms(1) have v: "isValidSquare br 5" "isValidSquare br 6" "isValidSquare br 7"
    by (simp_all add: isValidSquare_def)
  have "attackRay b byColor rook br 7 0 1"
    by (subst attackRay.simps) (simp add: v assms)
  then have "attackRay b byColor rook br (6 + 1) 0 1" by simp
  then have "attackRay b byColor rook br 6 0 1"
    by (subst attackRay.simps) (simp add: v assms)
  then have "attackRay b byColor rook br (5 + 1) 0 1" by simp
  then have "attackRay b byColor rook br 5 0 1"
    by (subst attackRay.simps) (simp add: v assms)
  then show ?thesis
    using attacked_by_rook_ray [of 0 1 b byColor "\<lparr>row = br, col = 4\<rparr>"]
    by (simp add: straightDirs_def)
qed

lemma rook_attacks_along_rank_left:
  assumes "isValidSquare br 4"
    and "pieceAt b br 3 = None" and "pieceAt b br 2 = None" and "pieceAt b br 1 = None"
    and "pieceAt b br 0 = Some p" and "type p = rook" and "color p = byColor"
  shows "isSquareUnderAttack \<lparr>row = br, col = 4\<rparr> b byColor"
proof -
  from assms(1) have v: "isValidSquare br 3" "isValidSquare br 2" "isValidSquare br 1"
      "isValidSquare br 0"
    by (simp_all add: isValidSquare_def)
  have "attackRay b byColor rook br 0 0 (-1)"
    by (subst attackRay.simps) (simp add: v assms)
  then have "attackRay b byColor rook br (1 + - 1) 0 (-1)" by simp
  then have "attackRay b byColor rook br 1 0 (-1)"
    by (subst attackRay.simps) (simp add: v assms)
  then have "attackRay b byColor rook br (2 + - 1) 0 (-1)" by simp
  then have "attackRay b byColor rook br 2 0 (-1)"
    by (subst attackRay.simps) (simp add: v assms)
  then have "attackRay b byColor rook br (3 + - 1) 0 (-1)" by simp
  then have "attackRay b byColor rook br 3 0 (-1)"
    by (subst attackRay.simps) (simp add: v assms)
  then show ?thesis
    using attacked_by_rook_ray [of 0 "-1" b byColor "\<lparr>row = br, col = 4\<rparr>"]
    by (simp add: straightDirs_def)
qed

lemma opponent_other: "c' \<noteq> cl \<Longrightarrow> c' = opponent cl"
  by (cases cl; cases c') (simp_all add: opponent_def)

lemma hasType_rook_own:
  assumes "hasType b rook r c"
    and "\<not> (\<exists>p. pieceAt b r c = Some p \<and> type p = rook \<and> color p = opponent cl)"
  shows "pieceAt b r c = Some \<lparr>type = rook, color = cl\<rparr>"
proof -
  from assms(1) obtain p where p: "pieceAt b r c = Some p" "type p = rook"
    by (auto simp: hasType_def split: option.splits)
  with assms(2) have "color p \<noteq> opponent cl" by blast
  then have "color p = cl" using opponent_other by (cases "color p = cl") auto
  with p show ?thesis by (cases p) simp
qed




text \<open>
  Claim C3.  For the king of colour \<open>cl\<close> standing on its home square, the only king of
  that colour on the board, and every castling-rights context: the pseudo-legal generator
  produces the two-square move towards a rook if and only if the corresponding
  castling-rights flag is set, every square strictly between the king's and the rook's
  home squares is empty, a rook of colour \<open>cl\<close> stands on the home corner, the king is not
  in check, and neither the transit square nor the landing square of the king is attacked
  by the opposing colour.  The first equation is the king side, the second the queen side.
\<close>

theorem castling_generated_iff:
  assumes "wf_board b"
    and "pieceAt b (homeRow cl) 4 = Some \<lparr>type = king, color = cl\<rparr>"
    and "\<forall>q. validPos q \<and> isPiece b king cl (row q) (col q)
           \<longrightarrow> q = \<lparr>row = homeRow cl, col = 4\<rparr>"
  shows "(\<lparr>row = homeRow cl, col = 6\<rparr>
            \<in> set (getPseudoLegalMoves ep cr \<lparr>row = homeRow cl, col = 4\<rparr> b))
         = ((if cl = white then whiteKingside cr else blackKingside cr)
            \<and> pieceAt b (homeRow cl) 5 = None \<and> pieceAt b (homeRow cl) 6 = None
            \<and> pieceAt b (homeRow cl) 7 = Some \<lparr>type = rook, color = cl\<rparr>
            \<and> \<not> isKingInCheck b cl
            \<and> \<not> isSquareUnderAttack \<lparr>row = homeRow cl, col = 5\<rparr> b (opponent cl)
            \<and> \<not> isSquareUnderAttack \<lparr>row = homeRow cl, col = 6\<rparr> b (opponent cl))
       \<and> (\<lparr>row = homeRow cl, col = 2\<rparr>
            \<in> set (getPseudoLegalMoves ep cr \<lparr>row = homeRow cl, col = 4\<rparr> b))
         = ((if cl = white then whiteQueenside cr else blackQueenside cr)
            \<and> pieceAt b (homeRow cl) 3 = None \<and> pieceAt b (homeRow cl) 2 = None
            \<and> pieceAt b (homeRow cl) 1 = None
            \<and> pieceAt b (homeRow cl) 0 = Some \<lparr>type = rook, color = cl\<rparr>
            \<and> \<not> isKingInCheck b cl
            \<and> \<not> isSquareUnderAttack \<lparr>row = homeRow cl, col = 3\<rparr> b (opponent cl)
            \<and> \<not> isSquareUnderAttack \<lparr>row = homeRow cl, col = 2\<rparr> b (opponent cl))"
proof -
  let ?br = "homeRow cl"
  let ?kp = "\<lparr>row = ?br, col = 4\<rparr>"
  have v4: "isValidSquare ?br 4" by (simp add: homeRow_def isValidSquare_def)
  have br: "(if cl = white then 7 else 0) = ?br" by (simp add: homeRow_def)
  from assms(2) have "isPiece b king cl (row ?kp) (col ?kp)" by (simp add: isPiece_Some)
  with v4 assms(3) have fk: "findKing b cl = Some ?kp"
    by (intro findKing_unique) (simp_all add: validPos_def)
  then have chk: "isKingInCheck b cl = isSquareUnderAttack ?kp b (opponent cl)"
    by (simp add: isKingInCheck_def)
  have gen: "getPseudoLegalMoves ep cr ?kp b
             = stepMoves b cl ?br 4 kingDirs @ castlingMoves cr b cl ?br 4"
    using assms(2) by (simp add: getPseudoLegalMoves_def Let_def)
  have s6: "\<lparr>row = ?br, col = 6\<rparr> \<notin> set (stepMoves b cl ?br 4 kingDirs)"
    and s2: "\<lparr>row = ?br, col = 2\<rparr> \<notin> set (stepMoves b cl ?br 4 kingDirs)"
    using stepMoves_king_col by fastforce+
  have rk: "pieceAt b ?br 7 = Some \<lparr>type = rook, color = cl\<rparr>"
    if "hasType b rook ?br 7" "pieceAt b ?br 5 = None" "pieceAt b ?br 6 = None"
       "\<not> isKingInCheck b cl"
    using that rook_attacks_along_rank_right [OF v4, of b _ "opponent cl"] chk
    by (intro hasType_rook_own) auto
  have rq: "pieceAt b ?br 0 = Some \<lparr>type = rook, color = cl\<rparr>"
    if "hasType b rook ?br 0" "pieceAt b ?br 3 = None" "pieceAt b ?br 2 = None"
       "pieceAt b ?br 1 = None" "\<not> isKingInCheck b cl"
    using that rook_attacks_along_rank_left [OF v4, of b _ "opponent cl"] chk
    by (intro hasType_rook_own) auto
  have ht: "\<And>c. pieceAt b ?br c = Some \<lparr>type = rook, color = cl\<rparr> \<Longrightarrow> hasType b rook ?br c"
    by (simp add: hasType_def)
  have king_side: "(\<lparr>row = ?br, col = 6\<rparr> \<in> set (castlingMoves cr b cl ?br 4))
         = ((if cl = white then whiteKingside cr else blackKingside cr)
            \<and> pieceAt b ?br 5 = None \<and> pieceAt b ?br 6 = None
            \<and> hasType b rook ?br 7
            \<and> \<not> isKingInCheck b cl
            \<and> \<not> isSquareUnderAttack \<lparr>row = ?br, col = 5\<rparr> b (opponent cl)
            \<and> \<not> isSquareUnderAttack \<lparr>row = ?br, col = 6\<rparr> b (opponent cl))"
    unfolding castlingMoves_def br Let_def by auto
  have queen_side: "(\<lparr>row = ?br, col = 2\<rparr> \<in> set (castlingMoves cr b cl ?br 4))
         = ((if cl = white then whiteQueenside cr else blackQueenside cr)
            \<and> pieceAt b ?br 3 = None \<and> pieceAt b ?br 2 = None \<and> pieceAt b ?br 1 = None
            \<and> hasType b rook ?br 0
            \<and> \<not> isKingInCheck b cl
            \<and> \<not> isSquareUnderAttack \<lparr>row = ?br, col = 3\<rparr> b (opponent cl)
            \<and> \<not> isSquareUnderAttack \<lparr>row = ?br, col = 2\<rparr> b (opponent cl))"
    unfolding castlingMoves_def br Let_def by auto
  show ?thesis
    unfolding gen using s6 s2 king_side queen_side rk rq ht
    by (simp only: set_append Un_iff) blast
qed

text \<open>
  The witness: White's king and both rooks at home with nothing in between and every
  flag set; both castling moves are generated.
\<close>

theorem castling_generated_iff_witness:
  "wf_board castleBoard
   \<and> pieceAt castleBoard (homeRow white) 4 = Some \<lparr>type = king, color = white\<rparr>
   \<and> list_all (\<lambda>q. isPiece castleBoard king white (row q) (col q)
                    \<longrightarrow> q = \<lparr>row = homeRow white, col = 4\<rparr>) allSquares
   \<and> \<lparr>row = 7, col = 6\<rparr> \<in> set (getPseudoLegalMoves None allRights \<lparr>row = 7, col = 4\<rparr> castleBoard)
   \<and> \<lparr>row = 7, col = 2\<rparr> \<in> set (getPseudoLegalMoves None allRights \<lparr>row = 7, col = 4\<rparr> castleBoard)
   \<and> \<lparr>row = 7, col = 6\<rparr> \<notin> set (getPseudoLegalMoves None noRights \<lparr>row = 7, col = 4\<rparr> castleBoard)"
proof -
  have h1: "wf_board castleBoard" by code_simp
  have h2: "pieceAt castleBoard (homeRow white) 4 = Some \<lparr>type = king, color = white\<rparr>"
    by code_simp
  have l3: "list_all (\<lambda>q. isPiece castleBoard king white (row q) (col q)
                    \<longrightarrow> q = \<lparr>row = homeRow white, col = 4\<rparr>) allSquares"
    by code_simp
  then have h3: "\<forall>q. validPos q \<and> isPiece castleBoard king white (row q) (col q)
                   \<longrightarrow> q = \<lparr>row = homeRow white, col = 4\<rparr>"
    by (simp add: list_all_allSquares)
  have hr: "homeRow white = 7" by code_simp
  have side: "whiteKingside allRights" "whiteQueenside allRights" "\<not> whiteKingside noRights"
    by code_simp+
  have empty: "pieceAt castleBoard 7 5 = None" "pieceAt castleBoard 7 6 = None"
      "pieceAt castleBoard 7 3 = None" "pieceAt castleBoard 7 2 = None"
      "pieceAt castleBoard 7 1 = None"
    by code_simp+
  have rooks: "pieceAt castleBoard 7 7 = Some \<lparr>type = rook, color = white\<rparr>"
      "pieceAt castleBoard 7 0 = Some \<lparr>type = rook, color = white\<rparr>"
    by code_simp+
  have safe: "\<not> isKingInCheck castleBoard white"
      "\<not> isSquareUnderAttack \<lparr>row = 7, col = 5\<rparr> castleBoard (opponent white)"
      "\<not> isSquareUnderAttack \<lparr>row = 7, col = 6\<rparr> castleBoard (opponent white)"
      "\<not> isSquareUnderAttack \<lparr>row = 7, col = 3\<rparr> castleBoard (opponent white)"
      "\<not> isSquareUnderAttack \<lparr>row = 7, col = 2\<rparr> castleBoard (opponent white)"
    by code_simp+
  show ?thesis
    using castling_generated_iff [OF h1 h2 h3, of None allRights]
      castling_generated_iff [OF h1 h2 h3, of None noRights]
      h1 h2 l3 hr side empty rooks safe
    by simp
qed

section \<open>C5: insufficient material\<close>

lemma nonKingPieces_gen:
  "concat (map (\<lambda>p. case pieceAt b (row p) (col p) of
         Some piece \<Rightarrow> if type piece \<noteq> king then [piece] else []
       | None \<Rightarrow> []) xs)
   = map (\<lambda>p. the (pieceAt b (row p) (col p))) (filter (isNonKingAt b) xs)"
  by (induction xs) (auto simp: isNonKingAt_def split: option.splits)

lemma nonKingPieces_squares:
  "nonKingPieces b = map (\<lambda>p. the (pieceAt b (row p) (col p))) (nonKingSquares b)"
  unfolding nonKingPieces_def nonKingSquares_def by (rule nonKingPieces_gen)

lemma fold_bishopStep_filter:
  "fold (bishopStep b) xs acc = fold (bishopStep b) (filter (isBishopAt b) xs) acc"
  by (induction xs arbitrary: acc) (auto simp: bishopStep_def isBishopAt_def)

lemma findBishops_filter:
  "findBishops b = fold (bishopStep b) (filter (isBishopAt b) allSquares) (None, None)"
  unfolding findBishops_def bishopStep_def [symmetric] by (rule fold_bishopStep_filter)

lemma isBishopAt_nonKing: "isBishopAt b p \<Longrightarrow> isNonKingAt b p"
  by (auto simp: isBishopAt_def isNonKingAt_def hasType_def split: option.splits)

lemma filter_bishops_of_two:
  assumes "nonKingSquares b = [p, q]" "isBishopAt b p" "isBishopAt b q"
  shows "filter (isBishopAt b) allSquares = [p, q]"
proof -
  have "filter (isBishopAt b) allSquares
        = filter (isBishopAt b) (filter (isNonKingAt b) allSquares)"
    using isBishopAt_nonKing by (auto simp: filter_filter intro!: filter_cong)
  also have "\<dots> = [p, q]" using assms by (simp add: nonKingSquares_def)
  finally show ?thesis .
qed

lemma isBishopAt_type:
  "isNonKingAt b p \<Longrightarrow> (type (the (pieceAt b (row p) (col p))) = bishop) = isBishopAt b p"
  by (auto simp: isBishopAt_def isNonKingAt_def hasType_def split: option.splits)

lemma isMinorAt_type:
  "isNonKingAt b p \<Longrightarrow>
   (type (the (pieceAt b (row p) (col p))) = bishop
    \<or> type (the (pieceAt b (row p) (col p))) = knight)
   = isMinorAt b p"
  by (auto simp: isMinorAt_def isNonKingAt_def hasType_def split: option.splits)

lemma nonKingSquares_mem: "p \<in> set (nonKingSquares b) \<Longrightarrow> isNonKingAt b p"
  by (simp add: nonKingSquares_def)

lemma insufficient_by_squares:
  "hasInsufficientMaterial b =
     (case nonKingSquares b of
        [] \<Rightarrow> True
      | [p] \<Rightarrow> isMinorAt b p
      | [p, q] \<Rightarrow> isBishopAt b p \<and> isBishopAt b q \<and> squareColor p = squareColor q
      | _ \<Rightarrow> False)"
proof (cases "nonKingSquares b")
  case Nil
  then show ?thesis by (simp add: hasInsufficientMaterial_def nonKingPieces_squares)
next
  case (Cons p ps)
  note c1 = Cons
  show ?thesis
  proof (cases ps)
    case Nil
    with c1 have sq: "nonKingSquares b = [p]" by simp
    then have "isNonKingAt b p" using nonKingSquares_mem [of p b] by simp
    then show ?thesis
      using isMinorAt_type [of b p]
      by (simp add: hasInsufficientMaterial_def nonKingPieces_squares sq)
  next
    case (Cons q qs)
    note c2 = Cons
    show ?thesis
    proof (cases qs)
      case Nil
      with c1 c2 have sq: "nonKingSquares b = [p, q]" by simp
      then have nk: "isNonKingAt b p" "isNonKingAt b q"
        using nonKingSquares_mem [of p b] nonKingSquares_mem [of q b] by simp_all
      show ?thesis
      proof (cases "isBishopAt b p \<and> isBishopAt b q")
        case True
        then have "filter (isBishopAt b) allSquares = [p, q]"
          using filter_bishops_of_two [OF sq] by simp
        then have "findBishops b = (Some p, Some q)"
          using True by (simp add: findBishops_filter bishopStep_def isBishopAt_def)
        then show ?thesis
          using True isBishopAt_type [OF nk(1)] isBishopAt_type [OF nk(2)]
          by (simp add: hasInsufficientMaterial_def nonKingPieces_squares sq squareColor_def)
      next
        case False
        then show ?thesis
          using isBishopAt_type [OF nk(1)] isBishopAt_type [OF nk(2)]
          by (auto simp: hasInsufficientMaterial_def nonKingPieces_squares sq)
      qed
    next
      case (Cons x xs)
      with c1 c2 show ?thesis
        by (simp add: hasInsufficientMaterial_def nonKingPieces_squares)
    qed
  qed
qed

text \<open>The squares of the two sides make up the squares of the pieces other than kings.\<close>

lemma isNonKingAt_sides: "isNonKingAt b p = (isSideAt b white p \<or> isSideAt b black p)"
  by (auto simp: isNonKingAt_def isSideAt_def split: option.splits) (metis PieceColor.exhaust)

lemma isSideAt_disjoint: "\<not> (isSideAt b white p \<and> isSideAt b black p)"
  by (auto simp: isSideAt_def split: option.splits)

lemma filter_or_left_empty:
  "filter Q xs = [] \<Longrightarrow> filter (\<lambda>x. P x \<or> Q x) xs = filter P xs"
  by (induction xs) (auto split: if_splits)

lemma filter_or_right_empty:
  "filter P xs = [] \<Longrightarrow> filter (\<lambda>x. P x \<or> Q x) xs = filter Q xs"
  by (induction xs) (auto split: if_splits)

lemma filter_or_singletons:
  assumes "filter P xs = [p]" "filter Q xs = [q]" "\<forall>x. \<not> (P x \<and> Q x)"
  shows "filter (\<lambda>x. P x \<or> Q x) xs = [p, q] \<or> filter (\<lambda>x. P x \<or> Q x) xs = [q, p]"
  using assms
proof (induction xs)
  case Nil
  then show ?case by simp
next
  case (Cons a xs)
  show ?case
  proof (cases "P a")
    case True
    with Cons.prems have "a = p" "filter P xs = []" "filter Q xs = [q]" by auto
    then show ?thesis using True filter_or_right_empty [of P xs Q] by simp
  next
    case False
    note nP = False
    show ?thesis
    proof (cases "Q a")
      case True
      with Cons.prems nP have "a = q" "filter Q xs = []" "filter P xs = [p]" by auto
      then show ?thesis using True nP filter_or_left_empty [of Q xs P] by simp
    next
      case False
      with nP Cons show ?thesis by simp
    qed
  qed
qed

lemma nonKingSquares_sides:
  "nonKingSquares b = filter (\<lambda>p. isSideAt b white p \<or> isSideAt b black p) allSquares"
  unfolding nonKingSquares_def using isNonKingAt_sides by (auto intro: filter_cong)

lemma claimed_implies_insufficient:
  assumes cl: "claimedInsufficient b"
  shows "hasInsufficientMaterial b"
proof -
  let ?W = "sideSquares b white" and ?B = "sideSquares b black"
  note ch = insufficient_by_squares [of b]
  consider (none) "?W = []" "?B = []"
    | (w) p where "?W = [p]" "?B = []" "isMinorAt b p"
    | (bl) q where "?W = []" "?B = [q]" "isMinorAt b q"
    | (both) p q where "?W = [p]" "?B = [q]" "isBishopAt b p" "isBishopAt b q"
        "squareColor p = squareColor q"
    using cl unfolding claimedInsufficient_def
    by (auto split: list.splits)
  then show ?thesis
  proof cases
    case none
    then have "nonKingSquares b = []"
      unfolding nonKingSquares_sides sideSquares_def
      by (simp add: filter_or_left_empty)
    with ch show ?thesis by simp
  next
    case w
    then have "nonKingSquares b = [p]"
      unfolding nonKingSquares_sides sideSquares_def
      by (simp add: filter_or_left_empty)
    with ch w show ?thesis by simp
  next
    case bl
    then have "nonKingSquares b = [q]"
      unfolding nonKingSquares_sides sideSquares_def
      by (simp add: filter_or_right_empty)
    with ch bl show ?thesis by simp
  next
    case both
    then have "nonKingSquares b = [p, q] \<or> nonKingSquares b = [q, p]"
      unfolding nonKingSquares_sides sideSquares_def
      using filter_or_singletons [of "isSideAt b white" allSquares p "isSideAt b black" q]
        isSideAt_disjoint by blast
    with ch both show ?thesis by auto
  qed
qed

text \<open>
  Claim C5, as stated, fails: with one king per colour, White's two bishops on squares of
  the same colour against a bare king are not among the listed combinations, and
  \<^verbatim>\<open>hasInsufficientMaterial\<close> returns true.
\<close>

theorem insufficient_material_counterexample:
  "kingCount twoBishopsBoard white = 1 \<and> kingCount twoBishopsBoard black = 1
   \<and> hasInsufficientMaterial twoBishopsBoard \<and> \<not> claimedInsufficient twoBishopsBoard"
  by code_simp

text \<open>
  Claim C5, amended.  For every board, \<^verbatim>\<open>hasInsufficientMaterial\<close> looks only at the
  pieces other than kings, whichever side owns them, and returns true exactly when there
  is none, when there is a single one and it is a bishop or a knight, or when there are
  exactly two, both bishops, standing on squares of the same colour, computed from
  \<open>(row + col) mod 2\<close>; for any other material it returns false.  Every combination the
  claim lists is among these.
\<close>

theorem hasInsufficientMaterial_by_squares:
  assumes "wf_board b"
  shows "hasInsufficientMaterial b =
     (case nonKingSquares b of
        [] \<Rightarrow> True
      | [p] \<Rightarrow> isMinorAt b p
      | [p, q] \<Rightarrow> isBishopAt b p \<and> isBishopAt b q \<and> squareColor p = squareColor q
      | _ \<Rightarrow> False)
     \<and> (claimedInsufficient b \<longrightarrow> hasInsufficientMaterial b)"
  using insufficient_by_squares [of b] claimed_implies_insufficient [of b] by blast

theorem hasInsufficientMaterial_by_squares_witness:
  "wf_board bishopEachBoard
   \<and> nonKingSquares bishopEachBoard = [\<lparr>row = 3, col = 3\<rparr>, \<lparr>row = 4, col = 4\<rparr>]
   \<and> claimedInsufficient bishopEachBoard
   \<and> hasInsufficientMaterial bishopEachBoard"
proof -
  have w: "wf_board bishopEachBoard" by code_simp
  have n: "nonKingSquares bishopEachBoard = [\<lparr>row = 3, col = 3\<rparr>, \<lparr>row = 4, col = 4\<rparr>]"
    by code_simp
  have c: "claimedInsufficient bishopEachBoard" by code_simp
  from hasInsufficientMaterial_by_squares [OF w] c
  have "hasInsufficientMaterial bishopEachBoard" by blast
  with w n c show ?thesis by simp
qed

section \<open>C8: the opponent move selector\<close>

subsection \<open>Where pseudo-legal moves land\<close>

text \<open>
  Every pseudo-legal destination is a square of the grid that is empty or holds a piece of
  the other colour, except the en passant square of the context, which the pawn case adds
  without looking at what stands on it.
\<close>

lemma slideRay_dest:
  "m \<in> set (slideRay b cl r c dr dc) \<Longrightarrow> isEmptyOrEnemy b cl (row m) (col m)"
proof (induction b cl r c dr dc rule: slideRay.induct)
  case (1 b cl r c dr dc)
  show ?case
  proof (cases "isValidSquare r c \<and> (dr \<noteq> 0 \<or> dc \<noteq> 0)")
    case False
    with "1.prems" show ?thesis by (subst (asm) slideRay.simps) auto
  next
    case True
    show ?thesis
    proof (cases "pieceAt b r c")
      case None
      with True "1.prems" have "m = \<lparr>row = r, col = c\<rparr> \<or> m \<in> set (slideRay b cl (r + dr) (c + dc) dr dc)"
        by (subst (asm) slideRay.simps) auto
      then show ?thesis
      proof
        assume "m = \<lparr>row = r, col = c\<rparr>"
        with True None show ?thesis by (simp add: isEmptyOrEnemy_def)
      next
        assume "m \<in> set (slideRay b cl (r + dr) (c + dc) dr dc)"
        then show ?thesis by (rule "1.IH" [OF True None])
      qed
    next
      case (Some p)
      with True "1.prems" have "m = \<lparr>row = r, col = c\<rparr> \<and> color p \<noteq> cl"
        by (subst (asm) slideRay.simps) (auto split: if_splits)
      then show ?thesis using True Some by (auto simp: isEmptyOrEnemy_def)
    qed
  qed
qed

lemma slideMoves_dest:
  "m \<in> set (slideMoves b cl r c dirs) \<Longrightarrow> isEmptyOrEnemy b cl (row m) (col m)"
  unfolding slideMoves_def using slideRay_dest by fastforce

lemma stepMoves_dest:
  "m \<in> set (stepMoves b cl r c offsets) \<Longrightarrow> isEmptyOrEnemy b cl (row m) (col m)"
  unfolding stepMoves_def by (auto split: if_splits)

lemma castlingMoves_dest:
  "m \<in> set (castlingMoves cr b cl r c) \<Longrightarrow> isEmptyOrEnemy b cl (row m) (col m)"
  unfolding castlingMoves_def Let_def
  by (auto simp: isEmptyOrEnemy_def isValidSquare_def split: if_splits)

lemma pawnForward_dest:
  "m \<in> set (pawnForward b cl r c) \<Longrightarrow> isEmptyOrEnemy b cl (row m) (col m)"
  unfolding pawnForward_def Let_def
  by (cases "cl = white")
     (auto simp: isEmptyOrEnemy_def isValidSquare_def split: if_splits)

lemma pawnCapture_dest:
  "m \<in> set (pawnCapture ep b cl r c offset) \<Longrightarrow>
   isEmptyOrEnemy b cl (row m) (col m)
   \<or> (isValidSquare (row m) (col m) \<and> isEnPassantSquare ep (row m) (col m))"
  unfolding pawnCapture_def Let_def
  by (auto simp: isEmptyOrEnemy_def split: if_splits option.splits)

lemma pawnMoves_dest:
  "m \<in> set (pawnMoves ep b cl r c) \<Longrightarrow>
   isEmptyOrEnemy b cl (row m) (col m)
   \<or> (isValidSquare (row m) (col m) \<and> isEnPassantSquare ep (row m) (col m))"
  unfolding pawnMoves_def using pawnForward_dest pawnCapture_dest by fastforce

lemma getPseudoLegalMoves_dest:
  assumes "pieceAt b (row pos) (col pos) = Some piece"
    and "m \<in> set (getPseudoLegalMoves ep cr pos b)"
  shows "isEmptyOrEnemy b (color piece) (row m) (col m)
   \<or> (isValidSquare (row m) (col m) \<and> isEnPassantSquare ep (row m) (col m))"
proof (cases "type piece")
  case pawn
  with assms show ?thesis
    using pawnMoves_dest by (simp add: getPseudoLegalMoves_def Let_def)
next
  case king
  with assms show ?thesis
    using stepMoves_dest castlingMoves_dest
    by (auto simp: getPseudoLegalMoves_def Let_def)
qed (use assms slideMoves_dest stepMoves_dest in \<open>simp_all add: getPseudoLegalMoves_def Let_def\<close>)

lemma legalMoveUnion_mem:
  "(f, t) \<in> set (legalMoveUnion ep cr b cl)
   \<longleftrightarrow> validPos f \<and> hasColor b cl f \<and> t \<in> set (getValidMoves ep cr f b)"
  unfolding legalMoveUnion_def using set_allSquares by auto

lemma getValidMoves_subset:
  "t \<in> set (getValidMoves ep cr f b) \<Longrightarrow> t \<in> set (getPseudoLegalMoves ep cr f b)"
  unfolding getValidMoves_def by (auto split: option.splits)

lemma legal_capture_takes_enemy:
  assumes m: "(f, t) \<in> set (legalMoveUnion ep cr b cl)"
    and occ: "pieceAt b (row t) (col t) = Some q"
    and epfree: "\<forall>e. ep = Some e \<longrightarrow> \<not> hasColor b cl e"
  shows "color q \<noteq> cl"
proof -
  from m have hc: "hasColor b cl f" and t: "t \<in> set (getPseudoLegalMoves ep cr f b)"
    by (simp_all add: legalMoveUnion_mem getValidMoves_subset)
  from hc obtain piece where p: "pieceAt b (row f) (col f) = Some piece" "color piece = cl"
    by (auto simp: hasColor_def split: option.splits)
  from getPseudoLegalMoves_dest [OF p(1) t]
  show ?thesis
  proof
    assume "isEmptyOrEnemy b (color piece) (row t) (col t)"
    with occ p(2) show ?thesis by (auto simp: isEmptyOrEnemy_def split: if_splits)
  next
    assume "isValidSquare (row t) (col t) \<and> isEnPassantSquare ep (row t) (col t)"
    then obtain e where e: "ep = Some e" "row t = row e" "col t = col e"
      by (auto simp: isEnPassantSquare_def split: option.splits)
    then have "t = e" by simp
    with e(1) epfree have "\<not> hasColor b cl t" by blast
    with occ show ?thesis by (simp add: hasColor_def)
  qed
qed


subsection \<open>The policy\<close>

text \<open>
  Claim C8, as stated, fails.  Black is not in check, a legal capture exists (the rook
  takes the pawn), and with the random index 0 the selector returns a king move to an
  empty square: out of check it draws from all legal moves.
\<close>

theorem selectAIMove_claim_counterexample:
  "\<not> isKingInCheck captureBoard black
   \<and> firstIndex (length (legalMoveUnion None noRights captureBoard black))
       < length (legalMoveUnion None noRights captureBoard black)
   \<and> claimedPool captureBoard (isKingInCheck captureBoard black)
        (legalMoveUnion None noRights captureBoard black)
      = [(\<lparr>row = 0, col = 7\<rparr>, \<lparr>row = 1, col = 7\<rparr>)]
   \<and> pieceAt captureBoard 1 7 = Some \<lparr>type = pawn, color = white\<rparr>
   \<and> selectAIMove None noRights firstIndex captureBoard
      = Some (\<lparr>row = 0, col = 0\<rparr>, \<lparr>row = 0, col = 1\<rparr>)
   \<and> pieceAt captureBoard 0 1 = None
   \<and> (\<lparr>row = 0, col = 0\<rparr>, \<lparr>row = 0, col = 1\<rparr>)
       \<notin> set (claimedPool captureBoard (isKingInCheck captureBoard black)
               (legalMoveUnion None noRights captureBoard black))"
  by code_simp

text \<open>
  Claim C8, amended.  Whenever the legal-move union for Black is not empty, the selector
  returns a legal move, drawn by the random index from an ordered choice of lists: when
  Black is in check, the legal king moves if there is any, else the legal moves landing on
  an occupied square if there is any (an enemy piece, when the en passant square of the
  context holds no black piece), else all legal moves; when Black is not in check, all
  legal moves.  The index is \<^verbatim>\<open>Math.floor(Math.random() * n)\<close> for the length \<open>n\<close> of the
  list; its distribution is not modelled.
\<close>

theorem selectAIMove_policy:
  assumes "wf_board b"
    and rnd: "\<forall>n. 0 < n \<longrightarrow> rnd n < n"
    and some: "legalMoveUnion ep cr b black \<noteq> []"
  shows "\<exists>m. selectAIMove ep cr rnd b = Some m
     \<and> m \<in> set (legalMoveUnion ep cr b black)
     \<and> (isKingInCheck b black \<and> kingMoves b (legalMoveUnion ep cr b black) \<noteq> [] \<longrightarrow>
          m = kingMoves b (legalMoveUnion ep cr b black)
                ! rnd (length (kingMoves b (legalMoveUnion ep cr b black)))
          \<and> hasType b king (row (fst m)) (col (fst m)))
     \<and> (isKingInCheck b black \<and> kingMoves b (legalMoveUnion ep cr b black) = []
          \<and> captureMoves b (legalMoveUnion ep cr b black) \<noteq> [] \<longrightarrow>
          m = captureMoves b (legalMoveUnion ep cr b black)
                ! rnd (length (captureMoves b (legalMoveUnion ep cr b black)))
          \<and> pieceAt b (row (snd m)) (col (snd m)) \<noteq> None
          \<and> ((\<forall>e. ep = Some e \<longrightarrow> \<not> hasColor b black e) \<longrightarrow>
               (\<exists>q. pieceAt b (row (snd m)) (col (snd m)) = Some q \<and> color q = white)))
     \<and> (\<not> isKingInCheck b black
          \<or> (kingMoves b (legalMoveUnion ep cr b black) = []
              \<and> captureMoves b (legalMoveUnion ep cr b black) = []) \<longrightarrow>
          m = legalMoveUnion ep cr b black ! rnd (length (legalMoveUnion ep cr b black)))"
proof -
  let ?all = "legalMoveUnion ep cr b black"
  let ?ks = "kingMoves b ?all"
  let ?cs = "captureMoves b ?all"
  let ?pool = "aiMovePool b (isKingInCheck b black) ?all"
  let ?m = "?pool ! rnd (length ?pool)"
  have sel: "selectAIMove ep cr rnd b = Some ?m"
    using some by (simp add: selectAIMove_def chooseMove_def Let_def)
  have sub: "set ?pool \<subseteq> set ?all"
    by (auto simp: aiMovePool_def kingMoves_def captureMoves_def)
  have ne: "?pool \<noteq> []"
    using some by (auto simp: aiMovePool_def)
  then have idx: "rnd (length ?pool) < length ?pool" using rnd by simp
  then have mem: "?m \<in> set ?pool" by simp
  with sub have legal: "?m \<in> set ?all" by blast
  have k: "?m = ?ks ! rnd (length ?ks) \<and> hasType b king (row (fst ?m)) (col (fst ?m))"
    if "isKingInCheck b black" "?ks \<noteq> []"
  proof -
    from that have p: "?pool = ?ks" by (simp add: aiMovePool_def)
    with mem have "?m \<in> set ?ks" by simp
    then have "hasType b king (row (fst ?m)) (col (fst ?m))"
      unfolding kingMoves_def by simp
    with p show ?thesis by simp
  qed
  have c: "?m = ?cs ! rnd (length ?cs)
          \<and> pieceAt b (row (snd ?m)) (col (snd ?m)) \<noteq> None
          \<and> ((\<forall>e. ep = Some e \<longrightarrow> \<not> hasColor b black e) \<longrightarrow>
               (\<exists>q. pieceAt b (row (snd ?m)) (col (snd ?m)) = Some q \<and> color q = white))"
    if "isKingInCheck b black" "?ks = []" "?cs \<noteq> []"
  proof -
    from that have p: "?pool = ?cs" by (simp add: aiMovePool_def)
    with mem have "?m \<in> set ?cs" by simp
    then have occ: "pieceAt b (row (snd ?m)) (col (snd ?m)) \<noteq> None"
      unfolding captureMoves_def by simp
    then obtain q where q: "pieceAt b (row (snd ?m)) (col (snd ?m)) = Some q" by blast
    have "color q = white" if epfree: "\<forall>e. ep = Some e \<longrightarrow> \<not> hasColor b black e"
    proof -
      from legal have "(fst ?m, snd ?m) \<in> set ?all" by simp
      from legal_capture_takes_enemy [OF this q epfree]
      show ?thesis by (cases "color q") simp_all
    qed
    with p occ q show ?thesis by simp
  qed
  have a: "?m = ?all ! rnd (length ?all)"
    if "\<not> isKingInCheck b black \<or> (?ks = [] \<and> ?cs = [])"
  proof -
    from that have "?pool = ?all" by (auto simp: aiMovePool_def)
    then show ?thesis by simp
  qed
  from sel legal k c a show ?thesis by blast
qed

lemma firstIndex_below: "\<forall>n. 0 < n \<longrightarrow> firstIndex n < n"
  by (simp add: firstIndex_def)

theorem selectAIMove_policy_witness:
  "wf_board checkedBoard
   \<and> legalMoveUnion None noRights checkedBoard black \<noteq> []
   \<and> isKingInCheck checkedBoard black
   \<and> kingMoves checkedBoard (legalMoveUnion None noRights checkedBoard black)
      = [(\<lparr>row = 0, col = 0\<rparr>, \<lparr>row = 0, col = 1\<rparr>), (\<lparr>row = 0, col = 0\<rparr>, \<lparr>row = 1, col = 1\<rparr>)]
   \<and> selectAIMove None noRights firstIndex checkedBoard
      = Some (\<lparr>row = 0, col = 0\<rparr>, \<lparr>row = 0, col = 1\<rparr>)"
proof -
  have w: "wf_board checkedBoard" by code_simp
  have n: "legalMoveUnion None noRights checkedBoard black \<noteq> []" by code_simp
  have c: "isKingInCheck checkedBoard black" by code_simp
  have k: "kingMoves checkedBoard (legalMoveUnion None noRights checkedBoard black)
      = [(\<lparr>row = 0, col = 0\<rparr>, \<lparr>row = 0, col = 1\<rparr>), (\<lparr>row = 0, col = 0\<rparr>, \<lparr>row = 1, col = 1\<rparr>)]"
    by code_simp
  let ?ks = "kingMoves checkedBoard (legalMoveUnion None noRights checkedBoard black)"
  from k have ne: "?ks \<noteq> []" by simp
  from selectAIMove_policy [OF w firstIndex_below n] c ne
  obtain m where m: "selectAIMove None noRights firstIndex checkedBoard = Some m"
      "m = ?ks ! firstIndex (length ?ks)"
    by blast
  have "m = (\<lparr>row = 0, col = 0\<rparr>, \<lparr>row = 0, col = 1\<rparr>)"
    unfolding m(2) k by (simp add: firstIndex_def)
  with m(1) w n c k show ?thesis by simp
qed

section \<open>C1: the legality filter\<close>

subsection \<open>Reads and writes of a board\<close>










subsection \<open>The filter\<close>



text \<open>
  Without the hypothesis on the target the copy need not be the applied move.  With a
  target left over from an earlier move the filter lets Black's b-pawn go to a6: the copy
  loses the white rook on a7, which stands where a captured pawn would, and Black's king
  is not attacked there; the move applied without a target leaves that king in check.
  With the target of the position itself the pawn has no move at all.
\<close>

lemma filter_with_stale_target:
  "getValidMoves (Some \<lparr>row = 2, col = 0\<rparr>) noRights \<lparr>row = 1, col = 1\<rparr> staleTargetBoard
     = [\<lparr>row = 2, col = 0\<rparr>]
   \<and> \<not> enPassantConsistent (Some \<lparr>row = 2, col = 0\<rparr>) staleTargetBoard black
   \<and> \<not> isKingInCheck (simulateMove (Some \<lparr>row = 2, col = 0\<rparr>) \<lparr>type = pawn, color = black\<rparr>
          \<lparr>row = 1, col = 1\<rparr> \<lparr>row = 2, col = 0\<rparr> staleTargetBoard) black
   \<and> isKingInCheck (fst (applyOnBoard None \<lparr>type = pawn, color = black\<rparr>
          \<lparr>row = 1, col = 1\<rparr> \<lparr>row = 2, col = 0\<rparr> staleTargetBoard)) black
   \<and> getValidMoves None noRights \<lparr>row = 1, col = 1\<rparr> staleTargetBoard = []"
  by code_simp

section \<open>Move application: the outcomes of the handlers\<close>

subsection \<open>The end of a move\<close>

lemma afterHumanMove_frame:
  "board (fst (afterHumanMove s s3 nb ncr nep)) = board s3"
  "castlingRights (fst (afterHumanMove s s3 nb ncr nep)) = castlingRights s3"
  "enPassantTarget (fst (afterHumanMove s s3 nb ncr nep)) = enPassantTarget s3"
  "halfMoveClock (fst (afterHumanMove s s3 nb ncr nep)) = halfMoveClock s3"
  "promotionSquare (fst (afterHumanMove s s3 nb ncr nep)) = promotionSquare s3"
  "positionHistory (fst (afterHumanMove s s3 nb ncr nep))
     = positionHistory s @ [boardToString nb black ncr nep]"
  unfolding afterHumanMove_def Let_def by simp_all

lemma afterHumanMove_reason:
  "drawReason (fst (afterHumanMove s s3 nb ncr nep)) = drawReason s3
   \<or> drawReason (fst (afterHumanMove s s3 nb ncr nep)) \<in> moveReasons"
  unfolding afterHumanMove_def Let_def moveReasons_def by simp

lemma afterHumanMove_threefold:
  "\<not> isDraw s3 \<Longrightarrow>
   (isDraw (fst (afterHumanMove s s3 nb ncr nep))
    \<and> drawReason (fst (afterHumanMove s s3 nb ncr nep)) = ''Threefold repetition'')
   = (3 \<le> length (filter (\<lambda>pos. pos = boardToString nb black ncr nep)
                    (positionHistory s @ [boardToString nb black ncr nep])))"
  unfolding afterHumanMove_def Let_def by simp

lemma afterAIMove_frame:
  "board (afterAIMove cl s3 nb ncr nep) = board s3"
  "castlingRights (afterAIMove cl s3 nb ncr nep) = castlingRights s3"
  "enPassantTarget (afterAIMove cl s3 nb ncr nep) = enPassantTarget s3"
  "halfMoveClock (afterAIMove cl s3 nb ncr nep) = halfMoveClock s3"
  "positionHistory (afterAIMove cl s3 nb ncr nep)
     = positionHistory cl @ [boardToString nb white ncr nep]"
  unfolding afterAIMove_def Let_def by simp_all

lemma afterAIMove_reason:
  "drawReason (afterAIMove cl s3 nb ncr nep) = drawReason s3
   \<or> drawReason (afterAIMove cl s3 nb ncr nep) \<in> moveReasons"
  unfolding afterAIMove_def Let_def moveReasons_def by simp

lemma afterAIMove_threefold:
  "\<not> isDraw s3 \<Longrightarrow>
   (isDraw (afterAIMove cl s3 nb ncr nep)
    \<and> drawReason (afterAIMove cl s3 nb ncr nep) = ''Threefold repetition'')
   = (3 \<le> length (filter (\<lambda>pos. pos = boardToString nb white ncr nep)
                    (positionHistory cl @ [boardToString nb white ncr nep])))"
  unfolding afterAIMove_def Let_def by simp

subsection \<open>The outcomes of a human move and of an opponent move\<close>

lemma applyHumanMove_cases [consumes 0, case_names no_piece king_capture promotion fifty played]:
  obtains
    (no_piece) "pieceAt (board s) (row sel) (col sel) = None"
      "applyHumanMove s sel r c = (s\<lparr>hintMove := None\<rparr>, None)"
  | (king_capture) mp where "pieceAt (board s) (row sel) (col sel) = Some mp"
      "hasType (board s) king r c"
      "applyHumanMove s sel r c
         = (s\<lparr>hintMove := None, selectedSquare := None, validMoves := []\<rparr>, None)"
  | (promotion) mp nb cp cap where "pieceAt (board s) (row sel) (col sel) = Some mp"
      "\<not> hasType (board s) king r c"
      "applyOnBoard (enPassantTarget s) mp sel \<lparr>row = r, col = c\<rparr> (board s) = (nb, cp, cap)"
      "type mp = pawn" "r = 0"
      "applyHumanMove s sel r c
         = (s\<lparr>hintMove := None, promotionSquare := Some \<lparr>row = r, col = c\<rparr>, board := nb,
              selectedSquare := None, validMoves := []\<rparr>, None)"
  | (fifty) mp nb cp cap s3 where "pieceAt (board s) (row sel) (col sel) = Some mp"
      "\<not> hasType (board s) king r c"
      "applyOnBoard (enPassantTarget s) mp sel \<lparr>row = r, col = c\<rparr> (board s) = (nb, cp, cap)"
      "\<not> (type mp = pawn \<and> r = 0)"
      "newHalfMoveClockOf mp cap (halfMoveClock s) \<ge> 100"
      "board s3 = nb"
      "castlingRights s3 = updateCastlingRights white mp sel (castlingRights s)"
      "enPassantTarget s3 = newEnPassantOf mp sel \<lparr>row = r, col = c\<rparr>"
      "halfMoveClock s3 = newHalfMoveClockOf mp cap (halfMoveClock s)"
      "positionHistory s3 = positionHistory s" "promotionSquare s3 = promotionSquare s"
      "applyHumanMove s sel r c = (s3\<lparr>isDraw := True, drawReason := ''Fifty-move rule''\<rparr>, None)"
  | (played) mp nb cp cap s3 where "pieceAt (board s) (row sel) (col sel) = Some mp"
      "\<not> hasType (board s) king r c"
      "applyOnBoard (enPassantTarget s) mp sel \<lparr>row = r, col = c\<rparr> (board s) = (nb, cp, cap)"
      "\<not> (type mp = pawn \<and> r = 0)"
      "newHalfMoveClockOf mp cap (halfMoveClock s) < 100"
      "board s3 = nb"
      "castlingRights s3 = updateCastlingRights white mp sel (castlingRights s)"
      "enPassantTarget s3 = newEnPassantOf mp sel \<lparr>row = r, col = c\<rparr>"
      "halfMoveClock s3 = newHalfMoveClockOf mp cap (halfMoveClock s)"
      "positionHistory s3 = positionHistory s" "promotionSquare s3 = promotionSquare s"
      "isDraw s3 = isDraw s" "drawReason s3 = drawReason s"
      "applyHumanMove s sel r c
         = afterHumanMove s s3 nb (updateCastlingRights white mp sel (castlingRights s))
             (newEnPassantOf mp sel \<lparr>row = r, col = c\<rparr>)"
proof (cases "pieceAt (board s) (row sel) (col sel)")
  case None
  then have "applyHumanMove s sel r c = (s\<lparr>hintMove := None\<rparr>, None)"
    by (simp add: applyHumanMove_def)
  with None show ?thesis by (rule no_piece)
next
  case (Some mp)
  note mp = Some
  show ?thesis
  proof (cases "hasType (board s) king r c")
    case True
    with mp have "applyHumanMove s sel r c
         = (s\<lparr>hintMove := None, selectedSquare := None, validMoves := []\<rparr>, None)"
      by (simp add: applyHumanMove_def)
    with mp True show ?thesis by (rule king_capture)
  next
    case False
    note nk = False
    obtain nb cp cap where ab:
      "applyOnBoard (enPassantTarget s) mp sel \<lparr>row = r, col = c\<rparr> (board s) = (nb, cp, cap)"
      by (cases "applyOnBoard (enPassantTarget s) mp sel \<lparr>row = r, col = c\<rparr> (board s)") auto
    show ?thesis
    proof (cases "type mp = pawn \<and> r = 0")
      case True
      with mp nk ab have "applyHumanMove s sel r c
         = (s\<lparr>hintMove := None, promotionSquare := Some \<lparr>row = r, col = c\<rparr>, board := nb,
              selectedSquare := None, validMoves := []\<rparr>, None)"
        by (simp add: applyHumanMove_def)
      moreover from True have "type mp = pawn" "r = 0" by simp_all
      ultimately show ?thesis using mp nk ab by (intro promotion)
    next
      case False
      note np = False
      define s1 where "s1 = (if cap then
                               (case cp of
                                  Some x \<Rightarrow> s\<lparr>hintMove := None, capturedBlack := capturedBlack s @ [x]\<rparr>
                                | None \<Rightarrow> s\<lparr>hintMove := None\<rparr>)
                             else s\<lparr>hintMove := None\<rparr>)"
      define s3 where "s3 = s1\<lparr>board := nb,
           castlingRights := updateCastlingRights white mp sel (castlingRights s),
           enPassantTarget := newEnPassantOf mp sel \<lparr>row = r, col = c\<rparr>,
           selectedSquare := None, validMoves := [],
           halfMoveClock := newHalfMoveClockOf mp cap (halfMoveClock s)\<rparr>"
      have s1: "positionHistory s1 = positionHistory s" "promotionSquare s1 = promotionSquare s"
          "isDraw s1 = isDraw s" "drawReason s1 = drawReason s"
        by (simp_all add: s1_def split: option.splits)
      have f: "board s3 = nb"
          "castlingRights s3 = updateCastlingRights white mp sel (castlingRights s)"
          "enPassantTarget s3 = newEnPassantOf mp sel \<lparr>row = r, col = c\<rparr>"
          "halfMoveClock s3 = newHalfMoveClockOf mp cap (halfMoveClock s)"
          "positionHistory s3 = positionHistory s" "promotionSquare s3 = promotionSquare s"
          "isDraw s3 = isDraw s" "drawReason s3 = drawReason s"
        using s1 by (simp_all add: s3_def)
      have unfold: "applyHumanMove s sel r c
          = (if newHalfMoveClockOf mp cap (halfMoveClock s) \<ge> 100
             then (s3\<lparr>isDraw := True, drawReason := ''Fifty-move rule''\<rparr>, None)
             else afterHumanMove s s3 nb (updateCastlingRights white mp sel (castlingRights s))
                    (newEnPassantOf mp sel \<lparr>row = r, col = c\<rparr>))"
        using mp nk ab np
        by (auto simp add: applyHumanMove_def s3_def s1_def Let_def split: option.splits)
      show ?thesis
      proof (cases "newHalfMoveClockOf mp cap (halfMoveClock s) \<ge> 100")
        case True
        with unfold have "applyHumanMove s sel r c
            = (s3\<lparr>isDraw := True, drawReason := ''Fifty-move rule''\<rparr>, None)" by simp
        with mp nk ab np True f show ?thesis by (intro fifty)
      next
        case False
        with unfold have "applyHumanMove s sel r c
            = afterHumanMove s s3 nb (updateCastlingRights white mp sel (castlingRights s))
                    (newEnPassantOf mp sel \<lparr>row = r, col = c\<rparr>)" by simp
        moreover from False have "newHalfMoveClockOf mp cap (halfMoveClock s) < 100" by simp
        ultimately show ?thesis using mp nk ab np f by (intro played)
      qed
    qed
  qed
qed

lemma applyAIMove_cases [consumes 0, case_names no_piece king_capture in_check fifty played]:
  obtains
    (no_piece) "pieceAt b (row (fst m)) (col (fst m)) = None"
      "applyAIMove cl m b cr ep st = st"
  | (king_capture) mp where "pieceAt b (row (fst m)) (col (fst m)) = Some mp"
      "hasType b king (row (snd m)) (col (snd m))"
      "applyAIMove cl m b cr ep st = st"
  | (in_check) mp nb0 cp cap nb s1 where "pieceAt b (row (fst m)) (col (fst m)) = Some mp"
      "\<not> hasType b king (row (snd m)) (col (snd m))"
      "applyOnBoard ep mp (fst m) (snd m) b = (nb0, cp, cap)"
      "nb = (if type mp = pawn \<and> row (snd m) = 7
             then setAt nb0 (row (snd m)) (col (snd m)) (Some \<lparr>type = queen, color = black\<rparr>)
             else nb0)"
      "isKingInCheck nb black"
      "board s1 = board st" "castlingRights s1 = castlingRights st"
      "enPassantTarget s1 = enPassantTarget st" "halfMoveClock s1 = halfMoveClock st"
      "positionHistory s1 = positionHistory st"
      "isDraw s1 = isDraw st" "drawReason s1 = drawReason st"
      "applyAIMove cl m b cr ep st = s1"
  | (fifty) mp nb0 cp cap nb s3 where "pieceAt b (row (fst m)) (col (fst m)) = Some mp"
      "\<not> hasType b king (row (snd m)) (col (snd m))"
      "applyOnBoard ep mp (fst m) (snd m) b = (nb0, cp, cap)"
      "nb = (if type mp = pawn \<and> row (snd m) = 7
             then setAt nb0 (row (snd m)) (col (snd m)) (Some \<lparr>type = queen, color = black\<rparr>)
             else nb0)"
      "\<not> isKingInCheck nb black"
      "newHalfMoveClockOf mp cap (halfMoveClock cl) \<ge> 100"
      "board s3 = nb"
      "castlingRights s3 = updateCastlingRights black mp (fst m) cr"
      "enPassantTarget s3 = newEnPassantOf mp (fst m) (snd m)"
      "halfMoveClock s3 = newHalfMoveClockOf mp cap (halfMoveClock cl)"
      "positionHistory s3 = positionHistory st"
      "applyAIMove cl m b cr ep st = s3\<lparr>isDraw := True, drawReason := ''Fifty-move rule''\<rparr>"
  | (played) mp nb0 cp cap nb s3 where "pieceAt b (row (fst m)) (col (fst m)) = Some mp"
      "\<not> hasType b king (row (snd m)) (col (snd m))"
      "applyOnBoard ep mp (fst m) (snd m) b = (nb0, cp, cap)"
      "nb = (if type mp = pawn \<and> row (snd m) = 7
             then setAt nb0 (row (snd m)) (col (snd m)) (Some \<lparr>type = queen, color = black\<rparr>)
             else nb0)"
      "\<not> isKingInCheck nb black"
      "newHalfMoveClockOf mp cap (halfMoveClock cl) < 100"
      "board s3 = nb"
      "castlingRights s3 = updateCastlingRights black mp (fst m) cr"
      "enPassantTarget s3 = newEnPassantOf mp (fst m) (snd m)"
      "halfMoveClock s3 = newHalfMoveClockOf mp cap (halfMoveClock cl)"
      "positionHistory s3 = positionHistory st"
      "isDraw s3 = isDraw st" "drawReason s3 = drawReason st"
      "applyAIMove cl m b cr ep st
         = afterAIMove cl s3 nb (updateCastlingRights black mp (fst m) cr)
             (newEnPassantOf mp (fst m) (snd m))"
proof (cases "pieceAt b (row (fst m)) (col (fst m))")
  case None
  then have "applyAIMove cl m b cr ep st = st"
    by (simp add: applyAIMove_def)
  with None show ?thesis by (rule no_piece)
next
  case (Some mp)
  note mp = Some
  show ?thesis
  proof (cases "hasType b king (row (snd m)) (col (snd m))")
    case True
    with mp have "applyAIMove cl m b cr ep st = st"
      by (simp add: applyAIMove_def)
    with mp True show ?thesis by (rule king_capture)
  next
    case False
    note nk = False
    obtain nb0 cp cap where ab: "applyOnBoard ep mp (fst m) (snd m) b = (nb0, cp, cap)"
      by (cases "applyOnBoard ep mp (fst m) (snd m) b") auto
    define nb where "nb = (if type mp = pawn \<and> row (snd m) = 7
             then setAt nb0 (row (snd m)) (col (snd m)) (Some \<lparr>type = queen, color = black\<rparr>)
             else nb0)"
    define s1 where "s1 = (if cap then
                         (case cp of
                            Some x \<Rightarrow> st\<lparr>capturedWhite := capturedWhite st @ [x]\<rparr>
                          | None \<Rightarrow> st)
                       else st)"
    define s3 where "s3 = s1\<lparr>board := nb,
           castlingRights := updateCastlingRights black mp (fst m) cr,
           enPassantTarget := newEnPassantOf mp (fst m) (snd m),
           halfMoveClock := newHalfMoveClockOf mp cap (halfMoveClock cl)\<rparr>"
    have s1: "board s1 = board st" "castlingRights s1 = castlingRights st"
        "enPassantTarget s1 = enPassantTarget st" "halfMoveClock s1 = halfMoveClock st"
        "positionHistory s1 = positionHistory st"
        "isDraw s1 = isDraw st" "drawReason s1 = drawReason st"
      by (simp_all add: s1_def split: option.splits)
    have f: "board s3 = nb"
        "castlingRights s3 = updateCastlingRights black mp (fst m) cr"
        "enPassantTarget s3 = newEnPassantOf mp (fst m) (snd m)"
        "halfMoveClock s3 = newHalfMoveClockOf mp cap (halfMoveClock cl)"
        "positionHistory s3 = positionHistory st"
        "isDraw s3 = isDraw st" "drawReason s3 = drawReason st"
      using s1 by (simp_all add: s3_def)
    have unfold: "applyAIMove cl m b cr ep st
        = (if isKingInCheck nb black then s1
           else if newHalfMoveClockOf mp cap (halfMoveClock cl) \<ge> 100
           then s3\<lparr>isDraw := True, drawReason := ''Fifty-move rule''\<rparr>
           else afterAIMove cl s3 nb (updateCastlingRights black mp (fst m) cr)
                  (newEnPassantOf mp (fst m) (snd m)))"
      using mp nk ab
      by (auto simp add: applyAIMove_def s3_def s1_def nb_def Let_def split: option.splits)
    show ?thesis
    proof (cases "isKingInCheck nb black")
      case True
      with unfold have "applyAIMove cl m b cr ep st = s1" by simp
      with mp nk ab nb_def True s1 show ?thesis by (intro in_check)
    next
      case False
      note nc = False
      show ?thesis
      proof (cases "newHalfMoveClockOf mp cap (halfMoveClock cl) \<ge> 100")
        case True
        with unfold nc have "applyAIMove cl m b cr ep st
            = s3\<lparr>isDraw := True, drawReason := ''Fifty-move rule''\<rparr>" by simp
        with mp nk ab nb_def nc True f show ?thesis by (intro fifty)
      next
        case False
        with unfold nc have "applyAIMove cl m b cr ep st
            = afterAIMove cl s3 nb (updateCastlingRights black mp (fst m) cr)
                    (newEnPassantOf mp (fst m) (snd m))" by simp
        moreover from False have "newHalfMoveClockOf mp cap (halfMoveClock cl) < 100" by simp
        ultimately show ?thesis using mp nk ab nb_def nc f by (intro played)
      qed
    qed
  qed
qed

lemma handleSquareClick_move:
  assumes "currentTurn s = white" "\<not> isCheckmate s" "\<not> isDraw s" "promotionSquare s = None"
    and "selectedSquare s = Some sel"
    and "list_ex (\<lambda>m. row m = r \<and> col m = c) (validMoves s)"
  shows "handleSquareClick s r c = applyHumanMove s sel r c"
  using assms by (simp add: handleSquareClick_def)

lemma handleSquareClick_promotion:
  assumes "currentTurn s = white" "\<not> isCheckmate s" "\<not> isDraw s" "promotionSquare s = None"
    and "selectedSquare s = Some sel"
    and "list_ex (\<lambda>m. row m = 0 \<and> col m = c) (validMoves s)"
    and "pieceAt (board s) (row sel) (col sel) = Some mp" and "type mp = pawn"
    and "\<not> hasType (board s) king 0 c"
  shows "handleSquareClick s 0 c
     = (s\<lparr>hintMove := None, promotionSquare := Some \<lparr>row = 0, col = c\<rparr>,
          board := fst (applyOnBoard (enPassantTarget s) mp sel \<lparr>row = 0, col = c\<rparr> (board s)),
          selectedSquare := None, validMoves := []\<rparr>, None)"
proof -
  have "handleSquareClick s 0 c = applyHumanMove s sel 0 c"
    using assms(1-6) by (rule handleSquareClick_move)
  also have "\<dots> = (s\<lparr>hintMove := None, promotionSquare := Some \<lparr>row = 0, col = c\<rparr>,
          board := fst (applyOnBoard (enPassantTarget s) mp sel \<lparr>row = 0, col = c\<rparr> (board s)),
          selectedSquare := None, validMoves := []\<rparr>, None)"
    using assms(7-9) by (cases rule: applyHumanMove_cases [of s sel 0 c]) auto
  finally show ?thesis .
qed

lemma handlePromotion_frame:
  "enPassantTarget (fst (handlePromotion t s)) = enPassantTarget s"
  "halfMoveClock (fst (handlePromotion t s)) = halfMoveClock s"
  "positionHistory (fst (handlePromotion t s)) = positionHistory s"
  "castlingRights (fst (handlePromotion t s)) = castlingRights s"
  "drawReason (fst (handlePromotion t s)) = drawReason s"
  "isDraw (fst (handlePromotion t s)) = isDraw s"
  unfolding handlePromotion_def Let_def by (simp_all split: option.splits)

lemma handlePromotion_call:
  "snd (handlePromotion t s) = Some call \<Longrightarrow> snd (snd call) = enPassantTarget s"
  unfolding handlePromotion_def Let_def by (auto split: option.splits if_splits)

section \<open>C4: the en passant target\<close>

text \<open>
  Claim C4 says that every applied move other than a pawn's double step clears the en
  passant target.  The code does so in \<^verbatim>\<open>makeAIMove\<close> and in the ordinary path of
  \<^verbatim>\<open>handleSquareClick\<close>, but a white pawn reaching row 0 leaves \<^verbatim>\<open>handleSquareClick\<close>
  through the promotion return before \<^verbatim>\<open>setEnPassantTarget\<close>, and \<^verbatim>\<open>handlePromotion\<close> does
  not make up for it: after the promotion the target is the one set before the move, and
  it is the one handed to the opponent.
\<close>

theorem promotion_keeps_enPassantTarget:
  assumes "currentTurn s = white" "\<not> isCheckmate s" "\<not> isDraw s" "promotionSquare s = None"
    and "selectedSquare s = Some sel"
    and "list_ex (\<lambda>m. row m = 0 \<and> col m = c) (validMoves s)"
    and "pieceAt (board s) (row sel) (col sel) = Some mp" and "type mp = pawn"
    and "\<not> hasType (board s) king 0 c"
  shows "promotionSquare (fst (handleSquareClick s 0 c)) = Some \<lparr>row = 0, col = c\<rparr>
     \<and> board (fst (handleSquareClick s 0 c))
         = fst (applyOnBoard (enPassantTarget s) mp sel \<lparr>row = 0, col = c\<rparr> (board s))
     \<and> enPassantTarget (fst (handleSquareClick s 0 c)) = enPassantTarget s
     \<and> enPassantTarget (fst (handlePromotion t (fst (handleSquareClick s 0 c))))
         = enPassantTarget s
     \<and> (\<forall>call. snd (handlePromotion t (fst (handleSquareClick s 0 c))) = Some call
           \<longrightarrow> snd (snd call) = enPassantTarget s)"
proof -
  note click = handleSquareClick_promotion [OF assms]
  have ep: "enPassantTarget (fst (handleSquareClick s 0 c)) = enPassantTarget s"
    by (simp add: click)
  have call: "snd (snd call) = enPassantTarget s"
    if "snd (handlePromotion t (fst (handleSquareClick s 0 c))) = Some call" for call
    using handlePromotion_call [OF that] ep by simp
  show ?thesis
    using call by (simp add: click handlePromotion_frame)
qed

text \<open>
  At the failing input Black's a-pawn has just advanced two squares (target a6) and White
  promotes on h8: the target is still a6 afterwards, and Black's b-pawn is offered the
  diagonal move to a6, two plies after the target was set.
\<close>

theorem promotion_keeps_enPassantTarget_witness:
  "currentTurn (promotionSelected (Some \<lparr>row = 2, col = 0\<rparr>) 0) = white
   \<and> selectedSquare (promotionSelected (Some \<lparr>row = 2, col = 0\<rparr>) 0) = Some \<lparr>row = 1, col = 7\<rparr>
   \<and> validMoves (promotionSelected (Some \<lparr>row = 2, col = 0\<rparr>) 0) = [\<lparr>row = 0, col = 7\<rparr>]
   \<and> enPassantTarget (promotionSelected (Some \<lparr>row = 2, col = 0\<rparr>) 0) = Some \<lparr>row = 2, col = 0\<rparr>
   \<and> enPassantTarget (fst (handlePromotion queen
         (fst (handleSquareClick (promotionSelected (Some \<lparr>row = 2, col = 0\<rparr>) 0) 0 7))))
       = Some \<lparr>row = 2, col = 0\<rparr>
   \<and> pieceAt (board (fst (handlePromotion queen
         (fst (handleSquareClick (promotionSelected (Some \<lparr>row = 2, col = 0\<rparr>) 0) 0 7))))) 0 7
       = Some \<lparr>type = queen, color = white\<rparr>
   \<and> currentTurn (fst (handlePromotion queen
         (fst (handleSquareClick (promotionSelected (Some \<lparr>row = 2, col = 0\<rparr>) 0) 0 7)))) = black
   \<and> \<lparr>row = 2, col = 0\<rparr> \<in> set (getValidMoves (Some \<lparr>row = 2, col = 0\<rparr>) noRights \<lparr>row = 1, col = 1\<rparr>
         (board (fst (handlePromotion queen
           (fst (handleSquareClick (promotionSelected (Some \<lparr>row = 2, col = 0\<rparr>) 0) 0 7))))))"
proof -
  let ?s = "promotionSelected (Some \<lparr>row = 2, col = 0\<rparr>) 0"
  let ?p = "fst (handlePromotion queen (fst (handleSquareClick ?s 0 7)))"
  have g: "currentTurn ?s = white" "\<not> isCheckmate ?s" "\<not> isDraw ?s" "promotionSquare ?s = None"
      "selectedSquare ?s = Some \<lparr>row = 1, col = 7\<rparr>"
      "validMoves ?s = [\<lparr>row = 0, col = 7\<rparr>]"
      "enPassantTarget ?s = Some \<lparr>row = 2, col = 0\<rparr>"
    by code_simp+
  from g(6) have v: "list_ex (\<lambda>m. row m = 0 \<and> col m = 7) (validMoves ?s)" by simp
  have p: "pieceAt (board ?s) (row \<lparr>row = 1, col = 7\<rparr>) (col \<lparr>row = 1, col = 7\<rparr>)
             = Some \<lparr>type = pawn, color = white\<rparr>"
      "type \<lparr>type = pawn, color = white\<rparr> = pawn"
      "\<not> hasType (board ?s) king 0 7"
    by code_simp+
  have after: "pieceAt (board ?p) 0 7 = Some \<lparr>type = queen, color = white\<rparr>"
      "currentTurn ?p = black"
      "\<lparr>row = 2, col = 0\<rparr> \<in> set (getValidMoves (Some \<lparr>row = 2, col = 0\<rparr>) noRights
         \<lparr>row = 1, col = 1\<rparr> (board ?p))"
    by code_simp+
  from promotion_keeps_enPassantTarget [OF g(1-5) v p, of queen] g(7)
  have "enPassantTarget ?p = Some \<lparr>row = 2, col = 0\<rparr>" by simp
  with g after show ?thesis by simp
qed

section \<open>C6: the half-move clock\<close>

text \<open>
  Claim C6 says that the clock is 0 after every pawn move.  On the promotion path of
  \<^verbatim>\<open>handleSquareClick\<close> the clock is not written at all, nor by \<^verbatim>\<open>handlePromotion\<close>: after
  a white pawn has moved to row 0 and has been promoted the clock is what it was before
  the move, where the ordinary path computes \<open>newHalfMoveClockOf\<close>, which is 0 for a pawn.
\<close>

theorem promotion_keeps_halfMoveClock:
  assumes "currentTurn s = white" "\<not> isCheckmate s" "\<not> isDraw s" "promotionSquare s = None"
    and "selectedSquare s = Some sel"
    and "list_ex (\<lambda>m. row m = 0 \<and> col m = c) (validMoves s)"
    and "pieceAt (board s) (row sel) (col sel) = Some mp" and "type mp = pawn"
    and "\<not> hasType (board s) king 0 c"
  shows "board (fst (handleSquareClick s 0 c))
         = fst (applyOnBoard (enPassantTarget s) mp sel \<lparr>row = 0, col = c\<rparr> (board s))
     \<and> halfMoveClock (fst (handleSquareClick s 0 c)) = halfMoveClock s
     \<and> halfMoveClock (fst (handlePromotion t (fst (handleSquareClick s 0 c)))) = halfMoveClock s
     \<and> newHalfMoveClockOf mp cap (halfMoveClock s) = 0"
proof -
  note click = handleSquareClick_promotion [OF assms]
  show ?thesis
    using assms(8) by (simp add: click handlePromotion_frame newHalfMoveClockOf_def)
qed

text \<open>At the failing input the clock stands at 7 before the promotion and at 7 after it.\<close>

theorem promotion_keeps_halfMoveClock_witness:
  "currentTurn (promotionSelected None 7) = white
   \<and> selectedSquare (promotionSelected None 7) = Some \<lparr>row = 1, col = 7\<rparr>
   \<and> validMoves (promotionSelected None 7) = [\<lparr>row = 0, col = 7\<rparr>]
   \<and> pieceAt (board (promotionSelected None 7)) 1 7 = Some \<lparr>type = pawn, color = white\<rparr>
   \<and> halfMoveClock (promotionSelected None 7) = 7
   \<and> pieceAt (board (fst (handlePromotion queen
         (fst (handleSquareClick (promotionSelected None 7) 0 7))))) 0 7
       = Some \<lparr>type = queen, color = white\<rparr>
   \<and> halfMoveClock (fst (handlePromotion queen
         (fst (handleSquareClick (promotionSelected None 7) 0 7)))) = 7"
proof -
  let ?s = "promotionSelected None 7"
  let ?p = "fst (handlePromotion queen (fst (handleSquareClick ?s 0 7)))"
  have g: "currentTurn ?s = white" "\<not> isCheckmate ?s" "\<not> isDraw ?s" "promotionSquare ?s = None"
      "selectedSquare ?s = Some \<lparr>row = 1, col = 7\<rparr>"
      "validMoves ?s = [\<lparr>row = 0, col = 7\<rparr>]"
      "halfMoveClock ?s = 7"
    by code_simp+
  from g(6) have v: "list_ex (\<lambda>m. row m = 0 \<and> col m = 7) (validMoves ?s)" by simp
  have p: "pieceAt (board ?s) (row \<lparr>row = 1, col = 7\<rparr>) (col \<lparr>row = 1, col = 7\<rparr>)
             = Some \<lparr>type = pawn, color = white\<rparr>"
      "type \<lparr>type = pawn, color = white\<rparr> = pawn"
      "\<not> hasType (board ?s) king 0 7"
    by code_simp+
  have after: "pieceAt (board ?p) 0 7 = Some \<lparr>type = queen, color = white\<rparr>"
    by code_simp
  from promotion_keeps_halfMoveClock [OF g(1-5) v p, of queen] g(7)
  have "halfMoveClock ?p = 7" by simp
  with g p(1) after show ?thesis by simp
qed

section \<open>C7: the position history\<close>

lemma count_last: "length (filter (\<lambda>pos. pos = k) (xs @ [k])) = Suc (length (filter (\<lambda>pos. pos = k) xs))"
  by simp

lemma applyHumanMove_history:
  assumes "\<not> isDraw s"
    and "board (fst (applyHumanMove s sel r c)) \<noteq> board s"
    and "promotionSquare s = None"
    and "promotionSquare (fst (applyHumanMove s sel r c)) = None"
    and "halfMoveClock (fst (applyHumanMove s sel r c)) < 100"
  shows "positionHistory (fst (applyHumanMove s sel r c))
           = positionHistory s @ [positionKey black (fst (applyHumanMove s sel r c))]
     \<and> ((isDraw (fst (applyHumanMove s sel r c))
          \<and> drawReason (fst (applyHumanMove s sel r c)) = ''Threefold repetition'')
         = (3 \<le> repetitions (fst (applyHumanMove s sel r c))
                   (positionKey black (fst (applyHumanMove s sel r c)))))"
proof (cases rule: applyHumanMove_cases [of s sel r c])
  case no_piece
  with assms(2) show ?thesis by simp
next
  case (king_capture mp)
  with assms(2) show ?thesis by simp
next
  case (promotion mp nb cp cap)
  with assms(4) show ?thesis by simp
next
  case (fifty mp nb cp cap s3)
  with assms(5) show ?thesis by simp
next
  case (played mp nb cp cap s3)
  let ?ncr = "updateCastlingRights white mp sel (castlingRights s)"
  let ?nep = "newEnPassantOf mp sel \<lparr>row = r, col = c\<rparr>"
  let ?s' = "fst (afterHumanMove s s3 nb ?ncr ?nep)"
  have key: "positionKey black ?s' = boardToString nb black ?ncr ?nep"
    by (simp add: positionKey_def afterHumanMove_frame played)
  have hist: "positionHistory ?s' = positionHistory s @ [boardToString nb black ?ncr ?nep]"
    by (simp add: afterHumanMove_frame)
  from assms(1) played have "\<not> isDraw s3" by simp
  from afterHumanMove_threefold [OF this, of s nb ?ncr ?nep]
  show ?thesis
    unfolding played(14) key repetitions_def hist by simp
qed

lemma applyHumanMove_history_grows:
  "positionHistory (fst (applyHumanMove s sel r c)) = positionHistory s
   \<or> (\<exists>k. positionHistory (fst (applyHumanMove s sel r c)) = positionHistory s @ [k])"
  by (cases rule: applyHumanMove_cases [of s sel r c]) (simp_all add: afterHumanMove_frame)

lemma handleSquareClick_history_grows:
  "positionHistory (fst (handleSquareClick s r c)) = positionHistory s
   \<or> (\<exists>k. positionHistory (fst (handleSquareClick s r c)) = positionHistory s @ [k])"
  unfolding handleSquareClick_def Let_def
  using applyHumanMove_history_grows by simp

lemma handleSquareClick_board_changed:
  assumes "board (fst (handleSquareClick s r c)) \<noteq> board s"
  shows "promotionSquare s = None
     \<and> handleSquareClick s r c = applyHumanMove s (the (selectedSquare s)) r c"
  using assms unfolding handleSquareClick_def Let_def
  by (auto split: if_splits)

lemma applyAIMove_history:
  assumes "\<not> isDraw st"
    and "board (applyAIMove cl m b cr ep st) \<noteq> board st"
    and "halfMoveClock (applyAIMove cl m b cr ep st) < 100"
  shows "positionHistory (applyAIMove cl m b cr ep st)
           = positionHistory cl @ [positionKey white (applyAIMove cl m b cr ep st)]
     \<and> ((isDraw (applyAIMove cl m b cr ep st)
          \<and> drawReason (applyAIMove cl m b cr ep st) = ''Threefold repetition'')
         = (3 \<le> repetitions (applyAIMove cl m b cr ep st)
                   (positionKey white (applyAIMove cl m b cr ep st))))"
proof (cases rule: applyAIMove_cases [of b m cl cr ep st])
  case no_piece
  with assms(2) show ?thesis by simp
next
  case (king_capture mp)
  with assms(2) show ?thesis by simp
next
  case (in_check mp nb0 cp cap nb s1)
  with assms(2) show ?thesis by simp
next
  case (fifty mp nb0 cp cap nb s3)
  with assms(3) show ?thesis by simp
next
  case (played mp nb0 cp cap nb s3)
  let ?ncr = "updateCastlingRights black mp (fst m) cr"
  let ?nep = "newEnPassantOf mp (fst m) (snd m)"
  let ?s' = "afterAIMove cl s3 nb ?ncr ?nep"
  have key: "positionKey white ?s' = boardToString nb white ?ncr ?nep"
    by (simp add: positionKey_def afterAIMove_frame played)
  have hist: "positionHistory ?s' = positionHistory cl @ [boardToString nb white ?ncr ?nep]"
    by (simp add: afterAIMove_frame)
  from assms(1) played have "\<not> isDraw s3" by simp
  from afterAIMove_threefold [OF this, of cl nb ?ncr ?nep]
  show ?thesis
    unfolding played(14) key repetitions_def hist by simp
qed

lemma applyAIMove_history_grows:
  "positionHistory (applyAIMove cl m b cr ep st) = positionHistory st
   \<or> (\<exists>k. positionHistory (applyAIMove cl m b cr ep st) = positionHistory cl @ [k])"
  by (cases rule: applyAIMove_cases [of b m cl cr ep st]) (simp_all add: afterAIMove_frame)

lemma makeAIMove_unfold:
  "makeAIMove cl rnd b cr ep st = applyAIMove cl m b cr ep st
   \<or> (board (makeAIMove cl rnd b cr ep st) = board st
       \<and> positionHistory (makeAIMove cl rnd b cr ep st) = positionHistory st)"
  if "selectAIMove (enPassantTarget cl) (castlingRights cl) rnd b = Some m
      \<or> selectAIMove (enPassantTarget cl) (castlingRights cl) rnd b = None"
  using that unfolding makeAIMove_def by auto

lemma applyHumanMove_fifty:
  assumes "board (fst (applyHumanMove s sel r c)) \<noteq> board s"
    and "promotionSquare s = None"
    and "promotionSquare (fst (applyHumanMove s sel r c)) = None"
    and "100 \<le> halfMoveClock (fst (applyHumanMove s sel r c))"
  shows "positionHistory (fst (applyHumanMove s sel r c)) = positionHistory s
     \<and> isDraw (fst (applyHumanMove s sel r c))
     \<and> drawReason (fst (applyHumanMove s sel r c)) = ''Fifty-move rule''"
proof (cases rule: applyHumanMove_cases [of s sel r c])
  case no_piece
  with assms(1) show ?thesis by simp
next
  case (king_capture mp)
  with assms(1) show ?thesis by simp
next
  case (promotion mp nb cp cap)
  with assms(3) show ?thesis by simp
next
  case (fifty mp nb cp cap s3)
  then show ?thesis by simp
next
  case (played mp nb cp cap s3)
  with assms(4) show ?thesis by (simp add: afterHumanMove_frame)
qed

lemma applyAIMove_fifty:
  assumes "board (applyAIMove cl m b cr ep st) \<noteq> board st"
    and "100 \<le> halfMoveClock (applyAIMove cl m b cr ep st)"
  shows "positionHistory (applyAIMove cl m b cr ep st) = positionHistory st
     \<and> isDraw (applyAIMove cl m b cr ep st)
     \<and> drawReason (applyAIMove cl m b cr ep st) = ''Fifty-move rule''"
proof (cases rule: applyAIMove_cases [of b m cl cr ep st])
  case no_piece
  with assms(1) show ?thesis by simp
next
  case (king_capture mp)
  with assms(1) show ?thesis by simp
next
  case (in_check mp nb0 cp cap nb s1)
  with assms(1) show ?thesis by simp
next
  case (fifty mp nb0 cp cap nb s3)
  then show ?thesis by simp
next
  case (played mp nb0 cp cap nb s3)
  with assms(2) show ?thesis by (simp add: afterAIMove_frame)
qed

text \<open>
  The opponent's reply runs with the closure of the click that scheduled it.  After a
  quiet king move of White and a quiet king move of Black from a clock of 5 and an empty
  history, the clock stands at 6 and the history holds the key of Black's move alone.
\<close>

lemma reply_runs_in_click_closure:
  "halfMoveClock (quietSelected 5) = 5
   \<and> positionHistory (quietSelected 5) = []
   \<and> halfMoveClock (fst (handleSquareClick (quietSelected 5) 7 3)) = 6
   \<and> positionHistory (fst (handleSquareClick (quietSelected 5) 7 3))
       = [''bk04wr70wk73|black|falsefalsefalsefalse'']
   \<and> pieceAt (board (clickThenReply firstIndex (quietSelected 5) 7 3)) 0 5
       = Some \<lparr>type = king, color = black\<rparr>
   \<and> halfMoveClock (clickThenReply firstIndex (quietSelected 5) 7 3) = 6
   \<and> positionHistory (clickThenReply firstIndex (quietSelected 5) 7 3)
       = [''bk05wr70wk73|white|falsefalsefalsefalse'']"
  by code_simp

text \<open>
  The move that brings the clock to 100 is applied (the king stands on d1 afterwards) and
  the handler returns with the fifty-move draw before the history is touched, so no key
  is appended for it.
\<close>

lemma fifty_move_appends_no_key:
  "pieceAt (board (quietSelected 99)) 7 4 = Some \<lparr>type = king, color = white\<rparr>
   \<and> \<lparr>row = 7, col = 3\<rparr> \<in> set (validMoves (quietSelected 99))
   \<and> halfMoveClock (quietSelected 99) = 99
   \<and> pieceAt (board (fst (handleSquareClick (quietSelected 99) 7 3))) 7 3
       = Some \<lparr>type = king, color = white\<rparr>
   \<and> pieceAt (board (fst (handleSquareClick (quietSelected 99) 7 3))) 7 4 = None
   \<and> halfMoveClock (fst (handleSquareClick (quietSelected 99) 7 3)) = 100
   \<and> drawReason (fst (handleSquareClick (quietSelected 99) 7 3)) = ''Fifty-move rule''
   \<and> positionHistory (fst (handleSquareClick (quietSelected 99) 7 3))
       = positionHistory (quietSelected 99)"
  by code_simp

text \<open>
  A promotion of White is played by two handlers, the click that moves the pawn and
  \<^verbatim>\<open>handlePromotion\<close>; neither appends a key.
\<close>

lemma promotion_appends_no_key:
  assumes "currentTurn s = white" "\<not> isCheckmate s" "\<not> isDraw s" "promotionSquare s = None"
    and "selectedSquare s = Some sel"
    and "list_ex (\<lambda>m. row m = 0 \<and> col m = c) (validMoves s)"
    and "pieceAt (board s) (row sel) (col sel) = Some mp" and "type mp = pawn"
    and "\<not> hasType (board s) king 0 c"
  shows "positionHistory (fst (handleSquareClick s 0 c)) = positionHistory s
     \<and> positionHistory (fst (handlePromotion t (fst (handleSquareClick s 0 c))))
         = positionHistory s"
  by (simp add: handleSquareClick_promotion [OF assms] handlePromotion_frame)

text \<open>
  The key writes a piece as the first letter of its colour and the first letter of its
  type, so a king and a knight of one colour are written alike: two boards that differ
  in the squares of Black's king and knight have the same key.
\<close>

lemma king_and_knight_share_letter:
  "kingKnightBoard \<noteq> knightKingBoard
   \<and> pieceAt kingKnightBoard 0 4 = Some \<lparr>type = king, color = black\<rparr>
   \<and> pieceAt knightKingBoard 0 4 = Some \<lparr>type = knight, color = black\<rparr>
   \<and> boardToString kingKnightBoard white noRights None
       = boardToString knightKingBoard white noRights None"
  by code_simp

text \<open>A click that schedules the opponent has applied White's move and appended its key.\<close>

lemma afterHumanMove_scheduled:
  assumes "afterHumanMove s s3 nb ncr nep = (s', Some call)"
  shows "call = (nb, ncr, nep) \<and> isDraw s' = isDraw s3"
  using assms unfolding afterHumanMove_def Let_def by (auto split: if_splits)

lemma handleSquareClick_scheduled:
  assumes "handleSquareClick s r c = (s', Some call)"
  shows "\<not> isDraw s' \<and> call = (board s', castlingRights s', enPassantTarget s')
     \<and> positionHistory s' = positionHistory s @ [positionKey black s']"
proof -
  from assms have d: "\<not> isDraw s"
    and eq: "applyHumanMove s (the (selectedSquare s)) r c = (s', Some call)"
    unfolding handleSquareClick_def Let_def by (auto split: if_splits)
  show ?thesis
  proof (cases rule: applyHumanMove_cases [of s "the (selectedSquare s)" r c])
    case no_piece
    with eq show ?thesis by simp
  next
    case (king_capture mp)
    with eq show ?thesis by simp
  next
    case (promotion mp nb cp cap)
    with eq show ?thesis by simp
  next
    case (fifty mp nb cp cap s3)
    with eq show ?thesis by simp
  next
    case (played mp nb cp cap s3)
    let ?ncr = "updateCastlingRights white mp (the (selectedSquare s)) (castlingRights s)"
    let ?nep = "newEnPassantOf mp (the (selectedSquare s)) \<lparr>row = r, col = c\<rparr>"
    from eq played(14) have a: "afterHumanMove s s3 nb ?ncr ?nep = (s', Some call)" by simp
    then have s': "s' = fst (afterHumanMove s s3 nb ?ncr ?nep)" by simp
    from afterHumanMove_scheduled [OF a] d played(12)
    have c: "call = (nb, ?ncr, ?nep)" and nd: "\<not> isDraw s'" by simp_all
    have f: "board s' = nb" "castlingRights s' = ?ncr" "enPassantTarget s' = ?nep"
      "positionHistory s' = positionHistory s @ [boardToString nb black ?ncr ?nep]"
      unfolding s' by (simp_all add: afterHumanMove_frame played)
    from c nd f show ?thesis by (simp add: positionKey_def)
  qed
qed

text \<open>
  Claim C7 says that every applied move appends exactly one key to the position history
  and that the history is never truncated except on reset.  The code does not keep that
  for a move of White answered by the opponent.  \<^verbatim>\<open>makeAIMove\<close> runs from the timer with the
  closure of the render in which the click was handled, so the \<^verbatim>\<open>positionHistory\<close> it
  reads is the one from before White's move.  For a click that applies White's move and
  schedules the reply, and a reply that changes the board and leaves the clock below 100:
  the opponent is called with the board, rights and target that the click wrote; the
  click has appended the key of its position, Black to move; the reply writes the history
  from before the click with the key of its own position, White to move; so after the two
  applied moves the history is as long as after the first, and it is not the history
  after White's move with a key appended: the key of White's move is gone.
\<close>

theorem reply_overwrites_human_key:
  assumes "handleSquareClick s r c = (s', Some call)"
    and "board (clickThenReply rnd s r c) \<noteq> board s'"
    and "halfMoveClock (clickThenReply rnd s r c) < 100"
  shows "call = (board s', castlingRights s', enPassantTarget s')
     \<and> positionHistory s' = positionHistory s @ [positionKey black s']
     \<and> positionHistory (clickThenReply rnd s r c)
         = positionHistory s @ [positionKey white (clickThenReply rnd s r c)]
     \<and> length (positionHistory (clickThenReply rnd s r c)) = length (positionHistory s')
     \<and> positionHistory (clickThenReply rnd s r c)
         \<noteq> positionHistory s' @ [positionKey white (clickThenReply rnd s r c)]"
proof -
  let ?R = "clickThenReply rnd s r c"
  from handleSquareClick_scheduled [OF assms(1)]
  have nd: "\<not> isDraw s'"
    and c: "call = (board s', castlingRights s', enPassantTarget s')"
    and h: "positionHistory s' = positionHistory s @ [positionKey black s']"
    by simp_all
  have R: "?R = makeAIMove s rnd (board s') (castlingRights s') (enPassantTarget s') s'"
    by (simp add: clickThenReply_def runScheduled_def assms(1) c)
  have a: "positionHistory ?R = positionHistory s @ [positionKey white ?R]"
  proof (cases "selectAIMove (enPassantTarget s) (castlingRights s) rnd (board s')")
    case None
    with assms(2) show ?thesis unfolding R by (simp add: makeAIMove_def split: if_splits)
  next
    case (Some m)
    then have eq: "?R = applyAIMove s m (board s') (castlingRights s') (enPassantTarget s') s'"
      unfolding R by (simp add: makeAIMove_def)
    from applyAIMove_history [OF nd assms(2) [unfolded eq] assms(3) [unfolded eq]]
    show ?thesis unfolding eq by simp
  qed
  from a h have l: "length (positionHistory ?R) = length (positionHistory s')" by simp
  then have "positionHistory ?R \<noteq> positionHistory s' @ [positionKey white ?R]"
    by (metis length_append_singleton n_not_Suc_n)
  with c h a l show ?thesis by simp
qed

text \<open>
  The witness is the first move of a game: White plays e2-e4, Black answers with the
  knight from b8 to a6.  Both moves are on the board, and the history holds one key, the
  one of Black's move; the key of White's move is not in it.
\<close>

theorem reply_overwrites_human_key_witness:
  "positionHistory openingSelected = []
   \<and> validMoves openingSelected = [\<lparr>row = 5, col = 4\<rparr>, \<lparr>row = 4, col = 4\<rparr>]
   \<and> snd (handleSquareClick openingSelected 4 4) \<noteq> None
   \<and> pieceAt (board (fst (handleSquareClick openingSelected 4 4))) 4 4
       = Some \<lparr>type = pawn, color = white\<rparr>
   \<and> positionHistory (fst (handleSquareClick openingSelected 4 4))
       = [positionKey black (fst (handleSquareClick openingSelected 4 4))]
   \<and> pieceAt (board (clickThenReply firstIndex openingSelected 4 4)) 4 4
       = Some \<lparr>type = pawn, color = white\<rparr>
   \<and> pieceAt (board (clickThenReply firstIndex openingSelected 4 4)) 2 0
       = Some \<lparr>type = knight, color = black\<rparr>
   \<and> halfMoveClock (clickThenReply firstIndex openingSelected 4 4) < 100
   \<and> positionHistory (clickThenReply firstIndex openingSelected 4 4)
       = [positionKey white (clickThenReply firstIndex openingSelected 4 4)]
   \<and> positionKey black (fst (handleSquareClick openingSelected 4 4))
       \<notin> set (positionHistory (clickThenReply firstIndex openingSelected 4 4))"
proof -
  let ?h = "handleSquareClick openingSelected 4 4"
  let ?R = "clickThenReply firstIndex openingSelected 4 4"
  have h0: "positionHistory openingSelected = []"
    "validMoves openingSelected = [\<lparr>row = 5, col = 4\<rparr>, \<lparr>row = 4, col = 4\<rparr>]"
    by code_simp+
  have sn: "snd ?h \<noteq> None" by code_simp
  then have click: "?h = (fst ?h, Some (the (snd ?h)))" by (cases ?h) auto
  have b1: "pieceAt (board (fst ?h)) 4 4 = Some \<lparr>type = pawn, color = white\<rparr>" by code_simp
  have b2: "pieceAt (board ?R) 4 4 = Some \<lparr>type = pawn, color = white\<rparr>"
    "pieceAt (board ?R) 2 0 = Some \<lparr>type = knight, color = black\<rparr>" by code_simp+
  have b3: "pieceAt (board (fst ?h)) 2 0 = None" by code_simp
  from b2(2) b3 have ch: "board ?R \<noteq> board (fst ?h)" by auto
  have clk: "halfMoveClock ?R < 100" by code_simp
  have keys: "positionKey black (fst ?h) \<noteq> positionKey white ?R" by code_simp
  from reply_overwrites_human_key [OF click ch clk] h0(1)
  have "positionHistory (fst ?h) = [positionKey black (fst ?h)]"
    and "positionHistory ?R = [positionKey white ?R]" by simp_all
  with h0 sn b1 b2 clk keys show ?thesis by simp
qed

section \<open>C9: resignation\<close>

lemma drawReason_applyHumanMove:
  "drawReason (fst (applyHumanMove s sel r c)) = drawReason s
   \<or> drawReason (fst (applyHumanMove s sel r c)) \<in> moveReasons"
proof (cases rule: applyHumanMove_cases [of s sel r c])
  case (fifty mp nb cp cap s3)
  then show ?thesis by (simp add: moveReasons_def)
next
  case (played mp nb cp cap s3)
  then show ?thesis
    using afterHumanMove_reason [of s s3 nb "updateCastlingRights white mp sel (castlingRights s)"
        "newEnPassantOf mp sel \<lparr>row = r, col = c\<rparr>"]
    by simp
qed simp_all

lemma drawReason_handleSquareClick:
  "drawReason (fst (handleSquareClick s r c)) = drawReason s
   \<or> drawReason (fst (handleSquareClick s r c)) \<in> moveReasons"
  unfolding handleSquareClick_def Let_def using drawReason_applyHumanMove
  by simp

lemma drawReason_applyAIMove:
  "drawReason (applyAIMove cl m b cr ep st) = drawReason st
   \<or> drawReason (applyAIMove cl m b cr ep st) \<in> moveReasons"
proof (cases rule: applyAIMove_cases [of b m cl cr ep st])
  case (fifty mp nb0 cp cap nb s3)
  then show ?thesis by (simp add: moveReasons_def)
next
  case (played mp nb0 cp cap nb s3)
  then show ?thesis
    using afterAIMove_reason [of cl s3 nb "updateCastlingRights black mp (fst m) cr"
        "newEnPassantOf mp (fst m) (snd m)"]
    by simp
qed simp_all

lemma drawReason_makeAIMove:
  "drawReason (makeAIMove cl rnd b cr ep st) = drawReason st
   \<or> drawReason (makeAIMove cl rnd b cr ep st) \<in> moveReasons"
  unfolding makeAIMove_def using drawReason_applyAIMove
  by (simp add: moveReasons_def split: option.splits)

lemma drawReason_handlePromotion:
  "drawReason (fst (handlePromotion t s)) = drawReason s"
  unfolding handlePromotion_def Let_def by (simp split: option.splits)

lemma resigned_not_move_reason: "''White resigned'' \<notin> moveReasons"
  by (simp add: moveReasons_def)

text \<open>
  Claim C9.  \<^verbatim>\<open>handleResign\<close> takes a game in progress to a terminal state in one step:
  it writes the terminal flag and the reason \<^verbatim>\<open>White resigned\<close> and nothing else, so no
  move is applied and no legality function is called; afterwards every click leaves the
  state as it is and schedules nothing.  The reason differs from the four reasons written
  by moves (the three draws and stalemate) and from the empty reason a checkmate leaves
  in place, and no click, promotion or opponent move ever writes it.
\<close>

theorem handleResign_terminal:
  assumes "\<not> isCheckmate s" and "\<not> isDraw s"
  shows "handleResign s = s\<lparr>isCheckmate := True, drawReason := ''White resigned''\<rparr>
     \<and> isCheckmate (handleResign s)
     \<and> drawReason (handleResign s) = ''White resigned''
     \<and> drawReason (handleResign s) \<notin> moveReasons
     \<and> drawReason (handleResign s) \<noteq> drawReason initialState
     \<and> board (handleResign s) = board s
     \<and> currentTurn (handleResign s) = currentTurn s
     \<and> halfMoveClock (handleResign s) = halfMoveClock s
     \<and> positionHistory (handleResign s) = positionHistory s
     \<and> isDraw (handleResign s) = isDraw s
     \<and> isStalemate (handleResign s) = isStalemate s
     \<and> (\<forall>r c. handleSquareClick (handleResign s) r c = (handleResign s, None))
     \<and> (\<forall>s' r c. drawReason (fst (handleSquareClick s' r c)) = ''White resigned''
            \<longrightarrow> drawReason s' = ''White resigned'')
     \<and> (\<forall>t s'. drawReason (fst (handlePromotion t s')) = ''White resigned''
            \<longrightarrow> drawReason s' = ''White resigned'')
     \<and> (\<forall>cl rnd b cr ep st. drawReason (makeAIMove cl rnd b cr ep st) = ''White resigned''
            \<longrightarrow> drawReason st = ''White resigned'')"
proof -
  have fields: "handleResign s = s\<lparr>isCheckmate := True, drawReason := ''White resigned''\<rparr>"
    by (simp add: handleResign_def)
  have stop: "handleSquareClick (handleResign s) r c = (handleResign s, None)" for r c
    by (simp add: handleSquareClick_def handleResign_def)
  have click: "drawReason s' = ''White resigned''"
    if "drawReason (fst (handleSquareClick s' r c)) = ''White resigned''" for s' r c
    using that drawReason_handleSquareClick [of s' r c] resigned_not_move_reason by auto
  have promo: "drawReason s' = ''White resigned''"
    if "drawReason (fst (handlePromotion t s')) = ''White resigned''" for t s'
    using that by (simp add: drawReason_handlePromotion)
  have ai: "drawReason st = ''White resigned''"
    if "drawReason (makeAIMove cl rnd b cr ep st) = ''White resigned''" for cl rnd b cr ep st
    using that drawReason_makeAIMove [of cl rnd b cr ep st] resigned_not_move_reason by auto
  have init: "''White resigned'' \<noteq> drawReason initialState"
    by (simp add: initialState_def)
  have own: "isCheckmate (handleResign s)"
      "drawReason (handleResign s) = ''White resigned''"
      "board (handleResign s) = board s"
      "currentTurn (handleResign s) = currentTurn s"
      "halfMoveClock (handleResign s) = halfMoveClock s"
      "positionHistory (handleResign s) = positionHistory s"
      "isDraw (handleResign s) = isDraw s"
      "isStalemate (handleResign s) = isStalemate s"
    by (simp_all add: handleResign_def)
  have other: "drawReason (handleResign s) \<notin> moveReasons"
      "drawReason (handleResign s) \<noteq> drawReason initialState"
    using init resigned_not_move_reason unfolding own(2) by blast+
  from fields own other stop click promo ai show ?thesis by blast
qed

theorem handleResign_terminal_witness:
  "\<not> isCheckmate initialState \<and> \<not> isDraw initialState
   \<and> isCheckmate (handleResign initialState)
   \<and> drawReason (handleResign initialState) = ''White resigned''
   \<and> board (handleResign initialState) = initializeBoard
   \<and> handleSquareClick (handleResign initialState) 6 4 = (handleResign initialState, None)"
proof -
  have a: "\<not> isCheckmate initialState" and b: "\<not> isDraw initialState"
    by (simp_all add: initialState_def)
  have c: "board initialState = initializeBoard" by (simp add: initialState_def)
  from handleResign_terminal [OF a b]
  have "isCheckmate (handleResign initialState)"
    and "drawReason (handleResign initialState) = ''White resigned''"
    and "board (handleResign initialState) = board initialState"
    and "handleSquareClick (handleResign initialState) 6 4 = (handleResign initialState, None)"
    by blast+
  with a b c show ?thesis by (simp only:) simp
qed

end
